theory Spec2Isabelle
  imports Main "HOL-Library.Sublist"
begin

section \<open>Derivation nodes and the parser state (lib/cfg/grammar-parser.ts)\<close>

text \<open>
  Strings are lists of 8-bit characters. Every literal and every character class of the
  parser is ASCII, so a character outside ASCII only ever fails to match.
  \<open>GrammarDerivationNode\<close> is the interface of lib/types/index.ts.
\<close>

datatype GrammarDerivationNode =
  Node (rule: string) (matchedText: string) (children: "GrammarDerivationNode list")

record ParseState =
  input :: string
  pos :: nat

type_synonym parser = "ParseState \<Rightarrow> GrammarDerivationNode option \<times> ParseState"

definition remaining :: "ParseState \<Rightarrow> string" where
  "remaining st = drop (pos st) (input st)"

definition isAtEnd :: "ParseState \<Rightarrow> bool" where
  "isAtEnd st = (pos st \<ge> length (input st))"

text \<open>\<open>matchLiteral\<close>: \<open>input.startsWith(str, pos)\<close>, and the cursor moves on success only.\<close>

definition matchLiteral :: "string \<Rightarrow> ParseState \<Rightarrow> bool \<times> ParseState" where
  "matchLiteral str st =
     (if prefix str (drop (pos st) (input st))
      then (True, st\<lparr>pos := pos st + length str\<rparr>)
      else (False, st))"

text \<open>
  \<open>matchRegex\<close> anchors the pattern at the start of \<open>remaining\<close>. A pattern is given by
  its anchored greedy match: the function returns the matched prefix of its argument, or
  \<open>None\<close>. The four patterns of the parser are a character class under a bounded
  quantifier (or a fixed shape), for which the greedy match is the longest run.
\<close>

definition matchRegex :: "(string \<Rightarrow> string option) \<Rightarrow> ParseState \<Rightarrow> string option \<times> ParseState" where
  "matchRegex pattern st =
     (case pattern (remaining st) of
        Some m \<Rightarrow> (Some m, st\<lparr>pos := pos st + length m\<rparr>)
      | None \<Rightarrow> (None, st))"

definition isDigit :: "char \<Rightarrow> bool" where
  "isDigit c = (c \<in> set ''0123456789'')"

definition isAliasStart :: "char \<Rightarrow> bool" where
  "isAliasStart c = (c \<in> set ''abcdefghijklmnopqrstuvwxyz_'')"

definition isAliasChar :: "char \<Rightarrow> bool" where
  "isAliasChar c = (c \<in> set ''abcdefghijklmnopqrstuvwxyz0123456789_'')"

definition isStringValueChar :: "char \<Rightarrow> bool" where
  "isStringValueChar c =
     (c \<in> set ''abcdefghijklmnopqrstuvwxyzABCDEFGHIJKLMNOPQRSTUVWXYZ0123456789_.-/'')"

text \<open>\<open>/[0-9]{1,6}/\<close>\<close>

definition RE_NUMBER :: "string \<Rightarrow> string option" where
  "RE_NUMBER s = (let m = takeWhile isDigit (take 6 s) in if m = [] then None else Some m)"

text \<open>\<open>/[a-z_][a-z0-9_]{0,29}/\<close>\<close>

definition RE_ALIAS :: "string \<Rightarrow> string option" where
  "RE_ALIAS s =
     (case s of
        [] \<Rightarrow> None
      | c # cs \<Rightarrow> if isAliasStart c then Some (c # takeWhile isAliasChar (take 29 cs)) else None)"

text \<open>\<open>/[a-zA-Z0-9_.\-/]{1,100}/\<close>\<close>

definition RE_STRING_VALUE :: "string \<Rightarrow> string option" where
  "RE_STRING_VALUE s =
     (let m = takeWhile isStringValueChar (take 100 s) in if m = [] then None else Some m)"

text \<open>\<open>/[0-9]{4}-[0-9]{2}-[0-9]{2}/\<close>\<close>

definition RE_DATE_LITERAL :: "string \<Rightarrow> string option" where
  "RE_DATE_LITERAL s =
     (case take 10 s of
        [y1, y2, y3, y4, d1, m1, m2, d2, a1, a2] \<Rightarrow>
          if isDigit y1 \<and> isDigit y2 \<and> isDigit y3 \<and> isDigit y4 \<and> d1 = CHR ''-'' \<and>
             isDigit m1 \<and> isDigit m2 \<and> d2 = CHR ''-'' \<and> isDigit a1 \<and> isDigit a2
          then Some (take 10 s) else None
      | _ \<Rightarrow> None)"

subsection \<open>Known terminals\<close>

definition AGG_FUNCS :: "string list" where
  "AGG_FUNCS = [''count'', ''sum'', ''avg'', ''min'', ''max'', ''uniq'', ''uniqExact'']"

definition DATE_TRUNC_EXPRS :: "string list" where
  "DATE_TRUNC_EXPRS =
     [''toStartOfHour(created_at)'', ''toStartOfDay(created_at)'', ''toStartOfWeek(created_at)'',
      ''toStartOfMonth(created_at)'', ''toDate(created_at)'']"

definition COMPARE_OPS :: "string list" where
  "COMPARE_OPS = [''!='', ''>='', ''<='', ''='', ''>'', ''<'']"

definition TIME_UNITS :: "string list" where
  "TIME_UNITS = [''HOUR'', ''DAY'', ''WEEK'', ''MONTH'']"

definition KNOWN_COLUMNS :: "string list" where
  "KNOWN_COLUMNS =
     [''actor_login'', ''repo_name'', ''title'', ''body'', ''ref'', ''id'', ''number'',
      ''is_private'', ''created_at'', ''type'', ''action'']"

definition STRING_COLS :: "string list" where
  "STRING_COLS = [''actor_login'', ''repo_name'', ''title'', ''body'', ''ref'']"

definition NUMERIC_COLS :: "string list" where
  "NUMERIC_COLS = [''id'', ''number'', ''is_private'']"

text \<open>
  \<open>[...xs].sort((a, b) => b.length - a.length)\<close>: a stable sort by descending length
  (\<open>sort_key\<close> is stable).
\<close>

definition sortByLengthDesc :: "string list \<Rightarrow> string list" where
  "sortByLengthDesc xs = sort_key (\<lambda>s. - int (length s)) xs"

abbreviation sq :: string where
  "sq \<equiv> [CHR 0x27]"

subsection \<open>Terminal parsers\<close>

text \<open>The four regex terminals. \<open>if (matched)\<close> is false for the empty string too.\<close>

definition regexTerminal :: "string \<Rightarrow> (string \<Rightarrow> string option) \<Rightarrow> parser" where
  "regexTerminal r pattern st =
     (case matchRegex pattern st of
        (Some m, st1) \<Rightarrow> if m \<noteq> [] then (Some (Node r m []), st1) else (None, st1)
      | (None, st1) \<Rightarrow> (None, st1))"

definition parseNumber :: parser where
  "parseNumber = regexTerminal ''number'' RE_NUMBER"

definition parseAlias :: parser where
  "parseAlias = regexTerminal ''alias'' RE_ALIAS"

definition parseStringValue :: parser where
  "parseStringValue = regexTerminal ''string_value'' RE_STRING_VALUE"

definition parseDateLiteral :: parser where
  "parseDateLiteral = regexTerminal ''date_literal'' RE_DATE_LITERAL"

text \<open>
  The loop \<open>for (const x of xs) if (state.matchLiteral(x)) return node(r, x)\<close>, which
  falls through with the cursor where it was.
\<close>

fun firstLiteral :: "string \<Rightarrow> string list \<Rightarrow> parser" where
  "firstLiteral r [] st = (None, st)"
| "firstLiteral r (x # xs) st =
     (case matchLiteral x st of
        (True, st1) \<Rightarrow> (Some (Node r x []), st1)
      | (False, st1) \<Rightarrow> firstLiteral r xs st1)"

definition parseColumnRef :: parser where
  "parseColumnRef st =
     (let saved = pos st; sorted = sortByLengthDesc KNOWN_COLUMNS in
      case firstLiteral ''column_ref'' sorted st of
        (Some n, st1) \<Rightarrow> (Some n, st1)
      | (None, st1) \<Rightarrow> (None, st1\<lparr>pos := saved\<rparr>))"

definition parseAggFunc :: parser where
  "parseAggFunc st = firstLiteral ''agg_func'' (sortByLengthDesc AGG_FUNCS) st"

definition parseAggExpr :: parser where
  "parseAggExpr st =
     (let saved = pos st in
      case parseAggFunc st of
        (None, st1) \<Rightarrow> (None, st1)
      | (Some func, st1) \<Rightarrow>
          (case matchLiteral ''('' st1 of
             (False, st2) \<Rightarrow> (None, st2\<lparr>pos := saved\<rparr>)
           | (True, st2) \<Rightarrow>
               (case parseColumnRef st2 of
                  (colRef, st3) \<Rightarrow>
                    (case matchLiteral '')'' st3 of
                       (False, st4) \<Rightarrow> (None, st4\<lparr>pos := saved\<rparr>)
                     | (True, st4) \<Rightarrow>
                         (case colRef of
                            Some c \<Rightarrow>
                              (Some (Node ''agg_expr''
                                 (matchedText func @ ''('' @ matchedText c @ '')'') [func, c]), st4)
                          | None \<Rightarrow>
                              (Some (Node ''agg_expr'' (matchedText func @ ''()'') [func]), st4))))))"

definition parseDateTruncExpr :: parser where
  "parseDateTruncExpr st = firstLiteral ''date_trunc_expr'' (sortByLengthDesc DATE_TRUNC_EXPRS) st"

subsection \<open>SELECT and FROM\<close>

text \<open>
  The block \<open>e = p(state); if (e && state.matchLiteral(" AS ")) { alias = parseAlias(state);
  if (alias) return node("select_item", ...) }\<close>, written twice in \<open>parseSelectItem\<close>.
  It leaves the cursor where the failing step left it; the caller restores.
\<close>

definition exprAsAlias :: "parser \<Rightarrow> parser" where
  "exprAsAlias p st =
     (case p st of
        (None, st1) \<Rightarrow> (None, st1)
      | (Some e, st1) \<Rightarrow>
          (case matchLiteral '' AS '' st1 of
             (False, st2) \<Rightarrow> (None, st2)
           | (True, st2) \<Rightarrow>
               (case parseAlias st2 of
                  (None, st3) \<Rightarrow> (None, st3)
                | (Some a, st3) \<Rightarrow>
                    (Some (Node ''select_item'' (matchedText e @ '' AS '' @ matchedText a) [e, a]),
                     st3))))"

definition parseSelectItem :: parser where
  "parseSelectItem st =
     (let saved = pos st in
      case exprAsAlias parseAggExpr st of
        (Some n, st1) \<Rightarrow> (Some n, st1)
      | (None, st1) \<Rightarrow>
          (case exprAsAlias parseDateTruncExpr (st1\<lparr>pos := saved\<rparr>) of
             (Some n, st2) \<Rightarrow> (Some n, st2)
           | (None, st2) \<Rightarrow>
               (case parseColumnRef (st2\<lparr>pos := saved\<rparr>) of
                  (Some c, st3) \<Rightarrow> (Some (Node ''select_item'' (matchedText c) [c]), st3)
                | (None, st3) \<Rightarrow> (None, st3))))"

text \<open>\<open>items.map((i) => i.matchedText).join(sep)\<close>\<close>

fun joinStrings :: "string \<Rightarrow> string list \<Rightarrow> string" where
  "joinStrings sep [] = []"
| "joinStrings sep [x] = x"
| "joinStrings sep (x # y # ys) = x @ sep @ joinStrings sep (y # ys)"

definition joinTexts :: "string \<Rightarrow> GrammarDerivationNode list \<Rightarrow> string" where
  "joinTexts sep items = joinStrings sep (map matchedText items)"


subsection \<open>The cursor never moves backwards\<close>

definition progresses :: "parser \<Rightarrow> bool" where
  "progresses p = (\<forall>st r st'. p st = (r, st') \<longrightarrow> input st' = input st \<and> pos st \<le> pos st')"

lemma progressesD:
  "progresses p \<Longrightarrow> p st = (r, st') \<Longrightarrow> input st' = input st \<and> pos st \<le> pos st'"
  unfolding progresses_def by blast

lemma matchLiteral_True:
  assumes "matchLiteral s st = (True, st')"
  shows "st' = st\<lparr>pos := pos st + length s\<rparr>"
    and "s \<noteq> [] \<Longrightarrow> pos st + length s \<le> length (input st)"
proof -
  from assms have p: "prefix s (drop (pos st) (input st))"
    and e: "st' = st\<lparr>pos := pos st + length s\<rparr>"
    by (auto simp: matchLiteral_def split: if_splits)
  show "st' = st\<lparr>pos := pos st + length s\<rparr>" by (rule e)
  assume "s \<noteq> []"
  then have "0 < length s" by simp
  moreover from p have "length s \<le> length (input st) - pos st"
    using prefix_length_le by fastforce
  ultimately show "pos st + length s \<le> length (input st)" by arith
qed

lemma matchLiteral_False: "matchLiteral s st = (False, st') \<Longrightarrow> st' = st"
  by (auto simp: matchLiteral_def split: if_splits)

lemma matchLiteral_progress:
  "matchLiteral s st = (b, st') \<Longrightarrow> input st' = input st \<and> pos st \<le> pos st'"
  by (auto simp: matchLiteral_def split: if_splits)

lemma matchRegex_progress:
  "matchRegex re st = (r, st') \<Longrightarrow> input st' = input st \<and> pos st \<le> pos st'"
  by (auto simp: matchRegex_def split: option.splits)

lemma matchRegex_None: "matchRegex re st = (None, st') \<Longrightarrow> st' = st"
  by (auto simp: matchRegex_def split: option.splits)

lemma regexTerminal_progresses: "progresses (regexTerminal r re)"
  unfolding progresses_def regexTerminal_def
  by (auto split: prod.splits option.splits if_splits dest: matchRegex_progress)

lemma parseNumber_progresses: "progresses parseNumber"
  unfolding parseNumber_def by (rule regexTerminal_progresses)

lemma parseAlias_progresses: "progresses parseAlias"
  unfolding parseAlias_def by (rule regexTerminal_progresses)

lemma parseStringValue_progresses: "progresses parseStringValue"
  unfolding parseStringValue_def by (rule regexTerminal_progresses)

lemma parseDateLiteral_progresses: "progresses parseDateLiteral"
  unfolding parseDateLiteral_def by (rule regexTerminal_progresses)

lemma firstLiteral_progress:
  "firstLiteral r xs st = (res, st') \<Longrightarrow> input st' = input st \<and> pos st \<le> pos st'"
proof (induction xs arbitrary: st)
  case Nil
  then show ?case by simp
next
  case (Cons x xs)
  show ?case
  proof (cases "matchLiteral x st")
    case (Pair b st1)
    then show ?thesis
      using Cons.prems Cons.IH [of st1] matchLiteral_progress [OF Pair]
      by (cases b) auto
  qed
qed

lemma firstLiteral_progresses: "progresses (firstLiteral r xs)"
  unfolding progresses_def using firstLiteral_progress by blast

lemma parseColumnRef_progresses: "progresses parseColumnRef"
  unfolding progresses_def parseColumnRef_def Let_def
  by (auto split: prod.splits option.splits dest: firstLiteral_progress)

lemma parseAggFunc_progresses: "progresses parseAggFunc"
  unfolding progresses_def parseAggFunc_def using firstLiteral_progress by blast

lemma parseDateTruncExpr_progresses: "progresses parseDateTruncExpr"
  unfolding progresses_def parseDateTruncExpr_def using firstLiteral_progress by blast

lemma parseAggExpr_progresses: "progresses parseAggExpr"
  unfolding progresses_def parseAggExpr_def Let_def
  by (auto split: prod.splits option.splits bool.splits
      dest!: progressesD [OF parseAggFunc_progresses] progressesD [OF parseColumnRef_progresses]
        matchLiteral_progress)

lemma exprAsAlias_progresses:
  assumes "progresses p"
  shows "progresses (exprAsAlias p)"
  unfolding progresses_def exprAsAlias_def
  by (auto split: prod.splits option.splits bool.splits
      dest!: progressesD [OF assms] progressesD [OF parseAlias_progresses] matchLiteral_progress)

lemma parseSelectItem_progresses: "progresses parseSelectItem"
  unfolding progresses_def parseSelectItem_def Let_def
  by (auto split: prod.splits option.splits
      dest!: progressesD [OF exprAsAlias_progresses [OF parseAggExpr_progresses]]
        progressesD [OF exprAsAlias_progresses [OF parseDateTruncExpr_progresses]]
        progressesD [OF parseColumnRef_progresses])

text \<open>
  A separator of at least one character was matched and the item parser never moves the
  cursor backwards: the rest of the input is shorter at the next round of a loop.
\<close>

lemma loop_decreases:
  assumes "matchLiteral sep st = (True, st1)" and "sep \<noteq> []"
    and "input st2 = input st1 \<and> pos st1 \<le> pos st2"
  shows "length (input st2) - pos st2 < length (input st) - pos st"
proof -
  from matchLiteral_True [OF assms(1)] assms(2)
  have e: "pos st1 = pos st + length sep" and i: "input st1 = input st"
    and l: "pos st + length sep \<le> length (input st)" by simp_all
  have n: "0 < length sep" using assms(2) by simp
  from assms(3) i have i2: "length (input st2) = length (input st)" by simp
  from assms(3) e have "pos st + length sep \<le> pos st2" by simp
  with l n show ?thesis unfolding i2 by arith
qed

lemma loop_terminates:
  assumes "progresses p" and "(True, st1) = matchLiteral sep st" and "(r, st2) = p st1"
    and "sep \<noteq> []"
  shows "length (input st2) - pos st2 < length (input st) - pos st"
proof -
  have m: "matchLiteral sep st = (True, st1)" and q: "p st1 = (r, st2)"
    using assms(2,3) by simp_all
  show ?thesis
    by (rule loop_decreases [OF m assms(4) progressesD [OF assms(1) q]])
qed

text \<open>\<open>while (state.matchLiteral(", ")) { next = parseSelectItem(state); if (!next) break; items.push(next) }\<close>\<close>

function selectLoop :: "ParseState \<Rightarrow> GrammarDerivationNode list \<Rightarrow> GrammarDerivationNode list \<times> ParseState" where
  "selectLoop st items =
     (case matchLiteral '', '' st of
        (False, st1) \<Rightarrow> (items, st1)
      | (True, st1) \<Rightarrow>
          (case parseSelectItem st1 of
             (None, st2) \<Rightarrow> (items, st2)
           | (Some n, st2) \<Rightarrow> selectLoop st2 (items @ [n])))"
  by pat_completeness auto
termination
  by (relation "measure (\<lambda>(st, items). length (input st) - pos st)")
    (auto intro!: loop_terminates [OF parseSelectItem_progresses])

declare selectLoop.simps [simp del]

definition parseSelectClause :: parser where
  "parseSelectClause st =
     (let saved = pos st in
      case matchLiteral ''SELECT '' st of
        (False, st1) \<Rightarrow> (None, st1\<lparr>pos := saved\<rparr>)
      | (True, st1) \<Rightarrow>
          (case parseSelectItem st1 of
             (None, st2) \<Rightarrow> (None, st2\<lparr>pos := saved\<rparr>)
           | (Some first, st2) \<Rightarrow>
               (case selectLoop st2 [first] of
                  (items, st3) \<Rightarrow>
                    (Some (Node ''select_clause'' (''SELECT '' @ joinTexts '', '' items) items), st3))))"

definition parseFromClause :: parser where
  "parseFromClause st =
     (case matchLiteral '' FROM github_events'' st of
        (True, st1) \<Rightarrow> (Some (Node ''from_clause'' ''FROM github_events'' []), st1)
      | (False, st1) \<Rightarrow> (None, st1))"


subsection \<open>WHERE\<close>

definition parseCompareOp :: parser where
  "parseCompareOp st = firstLiteral ''compare_op'' COMPARE_OPS st"

text \<open>
  The alternative \<open>if (state.matchLiteral(opening)) { val = parseStringValue(state);
  if (val && state.matchLiteral(closing)) return node(r, opening + val + closing, [...lead, val]) }\<close>
  of \<open>parseStringCondition\<close> (\<open>col = 'value'\<close>, \<open>col LIKE '%value%'\<close>) and of
  \<open>parseEnumCondition\<close> (\<open>type = 'value'\<close>, \<open>action = 'value'\<close>). The caller restores
  the cursor after a failure.
\<close>

definition quotedValueAlt ::
  "string \<Rightarrow> string \<Rightarrow> string \<Rightarrow> GrammarDerivationNode list \<Rightarrow> parser" where
  "quotedValueAlt r opening closing lead st =
     (case matchLiteral opening st of
        (False, st1) \<Rightarrow> (None, st1)
      | (True, st1) \<Rightarrow>
          (case parseStringValue st1 of
             (None, st2) \<Rightarrow> (None, st2)
           | (Some val, st2) \<Rightarrow>
               (case matchLiteral closing st2 of
                  (False, st3) \<Rightarrow> (None, st3)
                | (True, st3) \<Rightarrow>
                    (Some (Node r (opening @ matchedText val @ closing) (lead @ [val])), st3))))"

text \<open>\<open>v = parseStringValue(state); v && state.matchLiteral("'")\<close>\<close>

definition quotedValue :: parser where
  "quotedValue st =
     (case parseStringValue st of
        (None, st1) \<Rightarrow> (None, st1)
      | (Some v, st1) \<Rightarrow>
          (case matchLiteral sq st1 of
             (True, st2) \<Rightarrow> (Some v, st2)
           | (False, st2) \<Rightarrow> (None, st2)))"

lemma quotedValue_progresses: "progresses quotedValue"
  unfolding progresses_def quotedValue_def
  by (auto split: prod.splits option.splits bool.splits
      dest!: progressesD [OF parseStringValue_progresses] matchLiteral_progress)

text \<open>\<open>while (state.matchLiteral(", '")) { next = parseStringValue(state);
  if (next && state.matchLiteral("'")) values.push(next); else break; }\<close>\<close>

function valueListLoop :: "ParseState \<Rightarrow> GrammarDerivationNode list \<Rightarrow> GrammarDerivationNode list \<times> ParseState" where
  "valueListLoop st vals =
     (case matchLiteral ('', '' @ sq) st of
        (False, st1) \<Rightarrow> (vals, st1)
      | (True, st1) \<Rightarrow>
          (case quotedValue st1 of
             (None, st2) \<Rightarrow> (vals, st2)
           | (Some n, st2) \<Rightarrow> valueListLoop st2 (vals @ [n])))"
  by pat_completeness auto
termination
  by (relation "measure (\<lambda>(st, vals). length (input st) - pos st)")
    (auto intro!: loop_terminates [OF quotedValue_progresses])

declare valueListLoop.simps [simp del]

text \<open>The list of quoted values after \<open>IN (\<close>: empty unless a first value is there.\<close>

definition valueList :: "ParseState \<Rightarrow> GrammarDerivationNode list \<times> ParseState" where
  "valueList st =
     (case matchLiteral sq st of
        (False, st1) \<Rightarrow> ([], st1)
      | (True, st1) \<Rightarrow>
          (case quotedValue st1 of
             (None, st2) \<Rightarrow> ([], st2)
           | (Some v, st2) \<Rightarrow> valueListLoop st2 [v]))"

text \<open>
  The alternative \<open>col IN ('v1', 'v2', ...)\<close> of \<open>parseStringCondition\<close> and
  \<open>type IN (...)\<close> of \<open>parseEnumCondition\<close>.
\<close>

definition inListAlt :: "string \<Rightarrow> string \<Rightarrow> GrammarDerivationNode list \<Rightarrow> parser" where
  "inListAlt r opening lead st =
     (case matchLiteral opening st of
        (False, st1) \<Rightarrow> (None, st1)
      | (True, st1) \<Rightarrow>
          (case valueList st1 of
             (vals, st2) \<Rightarrow>
               (case matchLiteral '')'' st2 of
                  (False, st3) \<Rightarrow> (None, st3)
                | (True, st3) \<Rightarrow>
                    if length vals > 0
                    then (Some (Node r
                            (opening @ joinStrings '', '' (map (\<lambda>v. sq @ matchedText v @ sq) vals) @ '')'')
                            (lead @ vals)), st3)
                    else (None, st3))))"

fun stringConditionLoop :: "nat \<Rightarrow> string list \<Rightarrow> parser" where
  "stringConditionLoop saved [] st = (None, st)"
| "stringConditionLoop saved (col # cols) st =
     (case quotedValueAlt ''string_condition'' (col @ '' = '' @ sq) sq [Node ''string_col'' col []]
             (st\<lparr>pos := saved\<rparr>) of
        (Some n, st1) \<Rightarrow> (Some n, st1)
      | (None, st1) \<Rightarrow>
          (case quotedValueAlt ''string_condition'' (col @ '' LIKE '' @ sq @ ''%'') (''%'' @ sq)
                  [Node ''string_col'' col []] (st1\<lparr>pos := saved\<rparr>) of
             (Some n, st2) \<Rightarrow> (Some n, st2)
           | (None, st2) \<Rightarrow>
               (case inListAlt ''string_condition'' (col @ '' IN ('') [Node ''string_col'' col []]
                       (st2\<lparr>pos := saved\<rparr>) of
                  (Some n, st3) \<Rightarrow> (Some n, st3)
                | (None, st3) \<Rightarrow> stringConditionLoop saved cols (st3\<lparr>pos := saved\<rparr>))))"

definition parseStringCondition :: parser where
  "parseStringCondition st =
     (let saved = pos st; sorted = sortByLengthDesc STRING_COLS in
      stringConditionLoop saved sorted st)"

text \<open>The body of the loop of \<open>parseNumericCondition\<close> for one column, after its restore.\<close>

definition numericAlt :: "string \<Rightarrow> parser" where
  "numericAlt col st =
     (case matchLiteral (col @ '' '') st of
        (False, st1) \<Rightarrow> (None, st1)
      | (True, st1) \<Rightarrow>
          (case parseCompareOp st1 of
             (None, st2) \<Rightarrow> (None, st2)
           | (Some op, st2) \<Rightarrow>
               (case matchLiteral '' '' st2 of
                  (False, st3) \<Rightarrow> (None, st3)
                | (True, st3) \<Rightarrow>
                    (case parseNumber st3 of
                       (None, st4) \<Rightarrow> (None, st4)
                     | (Some num, st4) \<Rightarrow>
                         (Some (Node ''numeric_condition''
                            (col @ '' '' @ matchedText op @ '' '' @ matchedText num)
                            [Node ''numeric_col'' col [], op, num]), st4)))))"

fun numericConditionLoop :: "nat \<Rightarrow> string list \<Rightarrow> parser" where
  "numericConditionLoop saved [] st = (None, st)"
| "numericConditionLoop saved (col # cols) st =
     (case numericAlt col (st\<lparr>pos := saved\<rparr>) of
        (Some n, st1) \<Rightarrow> (Some n, st1)
      | (None, st1) \<Rightarrow> numericConditionLoop saved cols st1)"

definition parseNumericCondition :: parser where
  "parseNumericCondition st =
     (let saved = pos st; sorted = sortByLengthDesc NUMERIC_COLS in
      case numericConditionLoop saved sorted st of
        (Some n, st1) \<Rightarrow> (Some n, st1)
      | (None, st1) \<Rightarrow> (None, st1\<lparr>pos := saved\<rparr>))"

text \<open>\<open>created_at >= now() - INTERVAL N UNIT\<close>\<close>

definition intervalAlt :: parser where
  "intervalAlt st =
     (case matchLiteral ''created_at >= now() - INTERVAL '' st of
        (False, st1) \<Rightarrow> (None, st1)
      | (True, st1) \<Rightarrow>
          (case parseNumber st1 of
             (None, st2) \<Rightarrow> (None, st2)
           | (Some num, st2) \<Rightarrow>
               (case matchLiteral '' '' st2 of
                  (False, st3) \<Rightarrow> (None, st3)
                | (True, st3) \<Rightarrow>
                    (case firstLiteral ''time_unit'' TIME_UNITS st3 of
                       (None, st4) \<Rightarrow> (None, st4)
                     | (Some unit, st4) \<Rightarrow>
                         (Some (Node ''datetime_condition''
                            (''created_at >= now() - INTERVAL '' @ matchedText num @ '' '' @
                             matchedText unit)
                            [num, unit]), st4)))))"

text \<open>\<open>created_at BETWEEN 'date' AND 'date'\<close>\<close>

definition betweenAlt :: parser where
  "betweenAlt st =
     (case matchLiteral (''created_at BETWEEN '' @ sq) st of
        (False, st1) \<Rightarrow> (None, st1)
      | (True, st1) \<Rightarrow>
          (case parseDateLiteral st1 of
             (None, st2) \<Rightarrow> (None, st2)
           | (Some d1, st2) \<Rightarrow>
               (case matchLiteral (sq @ '' AND '' @ sq) st2 of
                  (False, st3) \<Rightarrow> (None, st3)
                | (True, st3) \<Rightarrow>
                    (case parseDateLiteral st3 of
                       (None, st4) \<Rightarrow> (None, st4)
                     | (Some d2, st4) \<Rightarrow>
                         (case matchLiteral sq st4 of
                            (False, st5) \<Rightarrow> (None, st5)
                          | (True, st5) \<Rightarrow>
                              (Some (Node ''datetime_condition''
                                 (''created_at BETWEEN '' @ sq @ matchedText d1 @ sq @ '' AND '' @ sq @
                                  matchedText d2 @ sq)
                                 [d1, d2]), st5))))))"

definition parseDatetimeCondition :: parser where
  "parseDatetimeCondition st =
     (let saved = pos st in
      case intervalAlt st of
        (Some n, st1) \<Rightarrow> (Some n, st1)
      | (None, st1) \<Rightarrow>
          (case betweenAlt (st1\<lparr>pos := saved\<rparr>) of
             (Some n, st2) \<Rightarrow> (Some n, st2)
           | (None, st2) \<Rightarrow> (None, st2\<lparr>pos := saved\<rparr>)))"

definition parseEnumCondition :: parser where
  "parseEnumCondition st =
     (let saved = pos st in
      case quotedValueAlt ''enum_condition'' (''type = '' @ sq) sq [] st of
        (Some n, st1) \<Rightarrow> (Some n, st1)
      | (None, st1) \<Rightarrow>
          (case inListAlt ''enum_condition'' ''type IN ('' [] (st1\<lparr>pos := saved\<rparr>) of
             (Some n, st2) \<Rightarrow> (Some n, st2)
           | (None, st2) \<Rightarrow>
               (case quotedValueAlt ''enum_condition'' (''action = '' @ sq) sq []
                       (st2\<lparr>pos := saved\<rparr>) of
                  (Some n, st3) \<Rightarrow> (Some n, st3)
                | (None, st3) \<Rightarrow> (None, st3\<lparr>pos := saved\<rparr>))))"

text \<open>\<open>parseDatetimeCondition(state) ?? parseEnumCondition(state) ?? parseStringCondition(state) ??
  parseNumericCondition(state)\<close>\<close>

definition parseCondition :: parser where
  "parseCondition st =
     (case parseDatetimeCondition st of
        (Some n, st1) \<Rightarrow> (Some n, st1)
      | (None, st1) \<Rightarrow>
          (case parseEnumCondition st1 of
             (Some n, st2) \<Rightarrow> (Some n, st2)
           | (None, st2) \<Rightarrow>
               (case parseStringCondition st2 of
                  (Some n, st3) \<Rightarrow> (Some n, st3)
                | (None, st3) \<Rightarrow> parseNumericCondition st3)))"

lemma quotedValueAlt_progresses: "progresses (quotedValueAlt r opening closing lead)"
  unfolding progresses_def quotedValueAlt_def
  by (auto split: prod.splits option.splits bool.splits
      dest!: progressesD [OF parseStringValue_progresses] matchLiteral_progress)

lemma valueListLoop_progress:
  "valueListLoop st vals = (vs, st') \<Longrightarrow> input st' = input st \<and> pos st \<le> pos st'"
proof (induction st vals rule: valueListLoop.induct)
  case (1 st vals)
  show ?case
  proof (cases "matchLiteral ('', '' @ sq) st")
    case m: (Pair b st1)
    note pm = matchLiteral_progress [OF m]
    show ?thesis
    proof (cases "quotedValue st1")
      case q: (Pair r st2)
      note pq = progressesD [OF quotedValue_progresses q]
      show ?thesis
      proof (cases "b \<and> r \<noteq> None")
        case True
        then obtain n where r: "r = Some n" and b: "b = True" by auto
        have "valueListLoop st2 (vals @ [n]) = (vs, st')"
          using "1.prems" m q r b by (simp add: valueListLoop.simps [of st])
        from "1.IH" [OF m [symmetric] b q [symmetric] r this] pm pq
        show ?thesis by simp
      next
        case False
        then show ?thesis
          using "1.prems" m q pm pq
          by (cases b; cases r) (auto simp: valueListLoop.simps [of st])
      qed
    qed
  qed
qed

lemma valueList_progress:
  "valueList st = (vs, st') \<Longrightarrow> input st' = input st \<and> pos st \<le> pos st'"
  unfolding valueList_def
  by (auto split: prod.splits option.splits bool.splits
      dest!: progressesD [OF quotedValue_progresses] matchLiteral_progress valueListLoop_progress)

lemma inListAlt_progresses: "progresses (inListAlt r opening lead)"
  unfolding progresses_def inListAlt_def
  by (auto split: prod.splits option.splits bool.splits if_splits
      dest!: valueList_progress matchLiteral_progress)

lemma stringConditionLoop_progress:
  "stringConditionLoop saved cols st = (r, st') \<Longrightarrow>
     input st' = input st \<and>
     (case r of Some n \<Rightarrow> saved \<le> pos st' | None \<Rightarrow> pos st' = saved \<or> pos st' = pos st)"
proof (induction cols arbitrary: st)
  case Nil
  then show ?case by auto
next
  case (Cons col cols)
  show ?case
    using Cons.prems
    by (auto split: prod.splits option.splits
        dest!: progressesD [OF quotedValueAlt_progresses] progressesD [OF inListAlt_progresses]
          Cons.IH)
qed

lemma parseStringCondition_progresses: "progresses parseStringCondition"
  unfolding progresses_def parseStringCondition_def Let_def
  by (auto split: option.splits dest!: stringConditionLoop_progress)

lemma numericAlt_progresses: "progresses (numericAlt col)"
  unfolding progresses_def numericAlt_def parseCompareOp_def
  by (auto split: prod.splits option.splits bool.splits
      dest!: progressesD [OF parseNumber_progresses] matchLiteral_progress firstLiteral_progress)

lemma numericConditionLoop_progress:
  "numericConditionLoop saved cols st = (r, st') \<Longrightarrow>
     input st' = input st \<and> (saved \<le> pos st' \<or> pos st' = pos st)"
proof (induction cols arbitrary: st)
  case Nil
  then show ?case by auto
next
  case (Cons col cols)
  show ?case
    using Cons.prems
    by (auto split: prod.splits option.splits
        dest!: progressesD [OF numericAlt_progresses] Cons.IH)
qed

lemma parseNumericCondition_progresses: "progresses parseNumericCondition"
  unfolding progresses_def parseNumericCondition_def Let_def
  by (auto split: prod.splits option.splits dest!: numericConditionLoop_progress)

lemma intervalAlt_progresses: "progresses intervalAlt"
  unfolding progresses_def intervalAlt_def
  by (auto split: prod.splits option.splits bool.splits
      dest!: progressesD [OF parseNumber_progresses] matchLiteral_progress firstLiteral_progress)

lemma betweenAlt_progresses: "progresses betweenAlt"
  unfolding progresses_def betweenAlt_def
  by (auto split: prod.splits option.splits bool.splits
      dest!: progressesD [OF parseDateLiteral_progresses] matchLiteral_progress)

lemma parseDatetimeCondition_progresses: "progresses parseDatetimeCondition"
  unfolding progresses_def parseDatetimeCondition_def Let_def
  by (auto split: prod.splits option.splits
      dest!: progressesD [OF intervalAlt_progresses] progressesD [OF betweenAlt_progresses])

lemma parseEnumCondition_progresses: "progresses parseEnumCondition"
  unfolding progresses_def parseEnumCondition_def Let_def
  by (auto split: prod.splits option.splits
      dest!: progressesD [OF quotedValueAlt_progresses] progressesD [OF inListAlt_progresses])

lemma parseCondition_progresses: "progresses parseCondition"
  unfolding progresses_def parseCondition_def
  by (auto split: prod.splits option.splits
      dest!: progressesD [OF parseDatetimeCondition_progresses]
        progressesD [OF parseEnumCondition_progresses]
        progressesD [OF parseStringCondition_progresses]
        progressesD [OF parseNumericCondition_progresses])


text \<open>\<open>while (state.matchLiteral(" AND ")) { next = parseCondition(state); if (!next) break; conditions.push(next) }\<close>\<close>

function whereLoop :: "ParseState \<Rightarrow> GrammarDerivationNode list \<Rightarrow> GrammarDerivationNode list \<times> ParseState" where
  "whereLoop st conditions =
     (case matchLiteral '' AND '' st of
        (False, st1) \<Rightarrow> (conditions, st1)
      | (True, st1) \<Rightarrow>
          (case parseCondition st1 of
             (None, st2) \<Rightarrow> (conditions, st2)
           | (Some n, st2) \<Rightarrow> whereLoop st2 (conditions @ [n])))"
  by pat_completeness auto
termination
  by (relation "measure (\<lambda>(st, conditions). length (input st) - pos st)")
    (auto intro!: loop_terminates [OF parseCondition_progresses])

declare whereLoop.simps [simp del]

definition parseWhereClause :: parser where
  "parseWhereClause st =
     (let saved = pos st in
      case matchLiteral '' WHERE '' st of
        (False, st1) \<Rightarrow> (None, st1\<lparr>pos := saved\<rparr>)
      | (True, st1) \<Rightarrow>
          (case parseCondition st1 of
             (None, st2) \<Rightarrow> (None, st2\<lparr>pos := saved\<rparr>)
           | (Some first, st2) \<Rightarrow>
               (case whereLoop st2 [first] of
                  (conditions, st3) \<Rightarrow>
                    (Some (Node ''where_clause'' (''WHERE '' @ joinTexts '' AND '' conditions)
                       conditions), st3))))"

subsection \<open>GROUP BY, HAVING, ORDER BY, LIMIT\<close>

definition parseGroupItem :: parser where
  "parseGroupItem st =
     (case parseDateTruncExpr st of
        (Some dtExpr, st1) \<Rightarrow> (Some (Node ''group_item'' (matchedText dtExpr) [dtExpr]), st1)
      | (None, st1) \<Rightarrow>
          (case parseColumnRef st1 of
             (Some colRef, st2) \<Rightarrow> (Some (Node ''group_item'' (matchedText colRef) [colRef]), st2)
           | (None, st2) \<Rightarrow>
               (case parseAlias st2 of
                  (Some alias, st3) \<Rightarrow> (Some (Node ''group_item'' (matchedText alias) [alias]), st3)
                | (None, st3) \<Rightarrow> (None, st3))))"

lemma parseGroupItem_progresses: "progresses parseGroupItem"
  unfolding progresses_def parseGroupItem_def
  by (auto split: prod.splits option.splits
      dest!: progressesD [OF parseDateTruncExpr_progresses]
        progressesD [OF parseColumnRef_progresses] progressesD [OF parseAlias_progresses])

function groupLoop :: "ParseState \<Rightarrow> GrammarDerivationNode list \<Rightarrow> GrammarDerivationNode list \<times> ParseState" where
  "groupLoop st items =
     (case matchLiteral '', '' st of
        (False, st1) \<Rightarrow> (items, st1)
      | (True, st1) \<Rightarrow>
          (case parseGroupItem st1 of
             (None, st2) \<Rightarrow> (items, st2)
           | (Some n, st2) \<Rightarrow> groupLoop st2 (items @ [n])))"
  by pat_completeness auto
termination
  by (relation "measure (\<lambda>(st, items). length (input st) - pos st)")
    (auto intro!: loop_terminates [OF parseGroupItem_progresses])

declare groupLoop.simps [simp del]

definition parseGroupClause :: parser where
  "parseGroupClause st =
     (let saved = pos st in
      case matchLiteral '' GROUP BY '' st of
        (False, st1) \<Rightarrow> (None, st1\<lparr>pos := saved\<rparr>)
      | (True, st1) \<Rightarrow>
          (case parseGroupItem st1 of
             (None, st2) \<Rightarrow> (None, st2\<lparr>pos := saved\<rparr>)
           | (Some first, st2) \<Rightarrow>
               (case groupLoop st2 [first] of
                  (items, st3) \<Rightarrow>
                    (Some (Node ''group_clause'' (''GROUP BY '' @ joinTexts '', '' items) items),
                     st3))))"

definition parseHavingClause :: parser where
  "parseHavingClause st =
     (let saved = pos st in
      case matchLiteral '' HAVING '' st of
        (False, st1) \<Rightarrow> (None, st1\<lparr>pos := saved\<rparr>)
      | (True, st1) \<Rightarrow>
          (case parseAggExpr st1 of
             (None, st2) \<Rightarrow> (None, st2\<lparr>pos := saved\<rparr>)
           | (Some aggExpr, st2) \<Rightarrow>
               (case matchLiteral '' '' st2 of
                  (False, st3) \<Rightarrow> (None, st3\<lparr>pos := saved\<rparr>)
                | (True, st3) \<Rightarrow>
                    (case parseCompareOp st3 of
                       (None, st4) \<Rightarrow> (None, st4\<lparr>pos := saved\<rparr>)
                     | (Some op, st4) \<Rightarrow>
                         (case matchLiteral '' '' st4 of
                            (False, st5) \<Rightarrow> (None, st5\<lparr>pos := saved\<rparr>)
                          | (True, st5) \<Rightarrow>
                              (case parseNumber st5 of
                                 (None, st6) \<Rightarrow> (None, st6\<lparr>pos := saved\<rparr>)
                               | (Some num, st6) \<Rightarrow>
                                   (Some (Node ''having_clause''
                                      (''HAVING '' @ matchedText aggExpr @ '' '' @ matchedText op @
                                       '' '' @ matchedText num)
                                      [aggExpr, op, num]), st6)))))))"

text \<open>
  \<open>baseNode\<close> is the aggregate expression, else the column reference, else the alias.
\<close>

definition parseOrderItem :: parser where
  "parseOrderItem st =
     (let saved = pos st in
      case parseAggExpr st of
        (aggExpr, st1) \<Rightarrow>
          (case (case aggExpr of Some a \<Rightarrow> (Some a, st1) | None \<Rightarrow> parseColumnRef st1) of
             (base1, st2) \<Rightarrow>
               (case (case base1 of Some b \<Rightarrow> (Some b, st2) | None \<Rightarrow> parseAlias st2) of
                  (None, st3) \<Rightarrow> (None, st3\<lparr>pos := saved\<rparr>)
                | (Some baseNode, st3) \<Rightarrow>
                    (case matchLiteral '' DESC'' st3 of
                       (True, st4) \<Rightarrow>
                         (Some (Node ''order_item'' (matchedText baseNode @ '' DESC'')
                            [baseNode, Node ''direction'' ''DESC'' []]), st4)
                     | (False, st4) \<Rightarrow>
                         (case matchLiteral '' ASC'' st4 of
                            (True, st5) \<Rightarrow>
                              (Some (Node ''order_item'' (matchedText baseNode @ '' ASC'')
                                 [baseNode, Node ''direction'' ''ASC'' []]), st5)
                          | (False, st5) \<Rightarrow>
                              (Some (Node ''order_item'' (matchedText baseNode) [baseNode]), st5))))))"

lemma parseOrderItem_progresses: "progresses parseOrderItem"
  unfolding progresses_def parseOrderItem_def Let_def
  by (auto split: prod.splits option.splits bool.splits
      dest!: progressesD [OF parseAggExpr_progresses]
        progressesD [OF parseColumnRef_progresses] progressesD [OF parseAlias_progresses]
        matchLiteral_progress)

function orderLoop :: "ParseState \<Rightarrow> GrammarDerivationNode list \<Rightarrow> GrammarDerivationNode list \<times> ParseState" where
  "orderLoop st items =
     (case matchLiteral '', '' st of
        (False, st1) \<Rightarrow> (items, st1)
      | (True, st1) \<Rightarrow>
          (case parseOrderItem st1 of
             (None, st2) \<Rightarrow> (items, st2)
           | (Some n, st2) \<Rightarrow> orderLoop st2 (items @ [n])))"
  by pat_completeness auto
termination
  by (relation "measure (\<lambda>(st, items). length (input st) - pos st)")
    (auto intro!: loop_terminates [OF parseOrderItem_progresses])

declare orderLoop.simps [simp del]

definition parseOrderClause :: parser where
  "parseOrderClause st =
     (let saved = pos st in
      case matchLiteral '' ORDER BY '' st of
        (False, st1) \<Rightarrow> (None, st1\<lparr>pos := saved\<rparr>)
      | (True, st1) \<Rightarrow>
          (case parseOrderItem st1 of
             (None, st2) \<Rightarrow> (None, st2\<lparr>pos := saved\<rparr>)
           | (Some first, st2) \<Rightarrow>
               (case orderLoop st2 [first] of
                  (items, st3) \<Rightarrow>
                    (Some (Node ''order_clause'' (''ORDER BY '' @ joinTexts '', '' items) items),
                     st3))))"

definition parseLimitClause :: parser where
  "parseLimitClause st =
     (let saved = pos st in
      case matchLiteral '' LIMIT '' st of
        (False, st1) \<Rightarrow> (None, st1\<lparr>pos := saved\<rparr>)
      | (True, st1) \<Rightarrow>
          (case parseNumber st1 of
             (None, st2) \<Rightarrow> (None, st2\<lparr>pos := saved\<rparr>)
           | (Some num, st2) \<Rightarrow>
               (Some (Node ''limit_clause'' (''LIMIT '' @ matchedText num) [num]), st2)))"

subsection \<open>The top-level parse\<close>

text \<open>
  \<open>String.prototype.trim\<close> removes white space and line terminators from both ends; among
  the 8-bit characters these are U+0009 to U+000D, U+0020 and U+00A0.
\<close>

definition isWhiteSpace :: "char \<Rightarrow> bool" where
  "isWhiteSpace c = (c \<in> set [CHR 0x09, CHR 0x0A, CHR 0x0B, CHR 0x0C, CHR 0x0D, CHR 0x20, CHR 0xA0])"

definition trim :: "string \<Rightarrow> string" where
  "trim s = rev (dropWhile isWhiteSpace (rev (dropWhile isWhiteSpace s)))"

text \<open>\<open>if (clause) children.push(clause)\<close>\<close>

definition pushIf :: "GrammarDerivationNode list \<Rightarrow> GrammarDerivationNode option \<Rightarrow> GrammarDerivationNode list" where
  "pushIf cs r = (case r of Some n \<Rightarrow> cs @ [n] | None \<Rightarrow> cs)"

text \<open>
  The body of \<open>parseQuery\<close>, returning with the node the state the parse ends in
  (a local of the source, which the result does not show).
\<close>

definition runQuery :: "string \<Rightarrow> GrammarDerivationNode option \<times> ParseState" where
  "runQuery sql =
     (let state = \<lparr>input = trim sql, pos = 0\<rparr> in
      case parseSelectClause state of
        (None, st1) \<Rightarrow> (None, st1)
      | (Some selectClause, st1) \<Rightarrow>
          (case parseFromClause st1 of
             (None, st2) \<Rightarrow> (None, st2)
           | (Some fromClause, st2) \<Rightarrow>
               (case parseWhereClause st2 of (whereClause, st3) \<Rightarrow>
                (case parseGroupClause st3 of (groupClause, st4) \<Rightarrow>
                 (case parseHavingClause st4 of (havingClause, st5) \<Rightarrow>
                  (case parseOrderClause st5 of (orderClause, st6) \<Rightarrow>
                   (case parseLimitClause st6 of (limitClause, st7) \<Rightarrow>
                      (let children =
                         pushIf (pushIf (pushIf (pushIf (pushIf [selectClause, fromClause]
                           whereClause) groupClause) havingClause) orderClause) limitClause
                       in if \<not> isAtEnd st7
                          then (Some (Node ''query (partial)'' sql children), st7)
                          else (Some (Node ''query'' sql children), st7)))))))))"

definition parseQuery :: "string \<Rightarrow> GrammarDerivationNode option" where
  "parseQuery sql = fst (runQuery sql)"

definition isValidGrammarSQL :: "string \<Rightarrow> bool" where
  "isValidGrammarSQL sql =
     (case parseQuery sql of None \<Rightarrow> False | Some result \<Rightarrow> rule result = ''query'')"


section \<open>Failure restores the cursor\<close>

lemma firstLiteral_None: "firstLiteral r xs st = (None, st') \<Longrightarrow> st' = st"
proof (induction xs arbitrary: st)
  case Nil
  then show ?case by simp
next
  case (Cons x xs)
  then show ?case
    by (auto split: prod.splits bool.splits dest!: matchLiteral_False)
qed

lemma firstLiteral_Some:
  "firstLiteral r xs st = (Some n, st') \<Longrightarrow>
     n = Node r (matchedText n) [] \<and> matchedText n \<in> set xs \<and>
     matchLiteral (matchedText n) st = (True, st')"
proof (induction xs arbitrary: st)
  case Nil
  then show ?case by simp
next
  case (Cons x xs)
  then show ?case
    by (auto split: prod.splits bool.splits dest!: matchLiteral_False)
qed

text \<open>A parser rolls back when a null result comes with the state it was called in.\<close>

definition rollsBack :: "parser \<Rightarrow> bool" where
  "rollsBack p = (\<forall>st st'. p st = (None, st') \<longrightarrow> st' = st)"

lemma rollsBackD: "rollsBack p \<Longrightarrow> p st = (None, st') \<Longrightarrow> st' = st"
  unfolding rollsBack_def by blast

lemma restore_eq: "input st1 = input st \<Longrightarrow> st1\<lparr>pos := pos st\<rparr> = (st :: ParseState)"
  by simp

lemma regexTerminal_rollsBack: "rollsBack (regexTerminal r re)"
  unfolding rollsBack_def regexTerminal_def matchRegex_def
  by (auto split: prod.splits option.splits if_splits)

lemma parseNumber_rollsBack: "rollsBack parseNumber"
  unfolding parseNumber_def by (rule regexTerminal_rollsBack)

lemma parseAlias_rollsBack: "rollsBack parseAlias"
  unfolding parseAlias_def by (rule regexTerminal_rollsBack)

lemma parseStringValue_rollsBack: "rollsBack parseStringValue"
  unfolding parseStringValue_def by (rule regexTerminal_rollsBack)

lemma parseDateLiteral_rollsBack: "rollsBack parseDateLiteral"
  unfolding parseDateLiteral_def by (rule regexTerminal_rollsBack)

lemma parseColumnRef_rollsBack: "rollsBack parseColumnRef"
  unfolding rollsBack_def parseColumnRef_def Let_def
  by (auto split: prod.splits option.splits dest!: firstLiteral_None)

lemma parseAggFunc_rollsBack: "rollsBack parseAggFunc"
  unfolding rollsBack_def parseAggFunc_def using firstLiteral_None by blast

lemma parseDateTruncExpr_rollsBack: "rollsBack parseDateTruncExpr"
  unfolding rollsBack_def parseDateTruncExpr_def using firstLiteral_None by blast

lemma parseCompareOp_rollsBack: "rollsBack parseCompareOp"
  unfolding rollsBack_def parseCompareOp_def using firstLiteral_None by blast

lemma parseAggFunc_result:
  "parseAggFunc st = (r, st') \<Longrightarrow>
     input st' = input st \<and> pos st \<le> pos st' \<and> (r = None \<longrightarrow> st' = st)"
  using progressesD [OF parseAggFunc_progresses] rollsBackD [OF parseAggFunc_rollsBack]
  by blast

lemma parseAggExpr_rollsBack: "rollsBack parseAggExpr"
  unfolding rollsBack_def parseAggExpr_def Let_def
  by (auto split: prod.splits option.splits bool.splits
      dest!: parseAggFunc_result progressesD [OF parseColumnRef_progresses] matchLiteral_progress)

lemma parseSelectItem_rollsBack: "rollsBack parseSelectItem"
  unfolding rollsBack_def parseSelectItem_def Let_def
  by (auto split: prod.splits option.splits
      dest!: progressesD [OF exprAsAlias_progresses [OF parseAggExpr_progresses]]
        progressesD [OF exprAsAlias_progresses [OF parseDateTruncExpr_progresses]]
        rollsBackD [OF parseColumnRef_rollsBack])

lemma parseSelectClause_rollsBack: "rollsBack parseSelectClause"
  unfolding rollsBack_def parseSelectClause_def Let_def
  by (auto split: prod.splits option.splits bool.splits
      dest!: progressesD [OF parseSelectItem_progresses] matchLiteral_progress)

lemma parseFromClause_rollsBack: "rollsBack parseFromClause"
  unfolding rollsBack_def parseFromClause_def
  by (auto split: prod.splits bool.splits dest!: matchLiteral_False)

lemma parseStringCondition_rollsBack: "rollsBack parseStringCondition"
  unfolding rollsBack_def parseStringCondition_def Let_def
  by (auto dest!: stringConditionLoop_progress)

lemma parseNumericCondition_rollsBack: "rollsBack parseNumericCondition"
  unfolding rollsBack_def parseNumericCondition_def Let_def
  by (auto split: prod.splits option.splits dest!: numericConditionLoop_progress)

lemma parseDatetimeCondition_rollsBack: "rollsBack parseDatetimeCondition"
  unfolding rollsBack_def parseDatetimeCondition_def Let_def
  by (auto split: prod.splits option.splits
      dest!: progressesD [OF intervalAlt_progresses] progressesD [OF betweenAlt_progresses])

lemma parseEnumCondition_rollsBack: "rollsBack parseEnumCondition"
  unfolding rollsBack_def parseEnumCondition_def Let_def
  by (auto split: prod.splits option.splits
      dest!: progressesD [OF quotedValueAlt_progresses] progressesD [OF inListAlt_progresses])

lemma parseCondition_rollsBack: "rollsBack parseCondition"
  unfolding rollsBack_def parseCondition_def
  by (auto split: prod.splits option.splits
      dest!: rollsBackD [OF parseDatetimeCondition_rollsBack]
        rollsBackD [OF parseEnumCondition_rollsBack]
        rollsBackD [OF parseStringCondition_rollsBack]
        rollsBackD [OF parseNumericCondition_rollsBack])

lemma parseWhereClause_rollsBack: "rollsBack parseWhereClause"
  unfolding rollsBack_def parseWhereClause_def Let_def
  by (auto split: prod.splits option.splits bool.splits
      dest!: progressesD [OF parseCondition_progresses] matchLiteral_progress)

lemma parseGroupItem_rollsBack: "rollsBack parseGroupItem"
  unfolding rollsBack_def parseGroupItem_def
  by (auto split: prod.splits option.splits
      dest!: rollsBackD [OF parseDateTruncExpr_rollsBack]
        rollsBackD [OF parseColumnRef_rollsBack] rollsBackD [OF parseAlias_rollsBack])

lemma parseGroupClause_rollsBack: "rollsBack parseGroupClause"
  unfolding rollsBack_def parseGroupClause_def Let_def
  by (auto split: prod.splits option.splits bool.splits
      dest!: progressesD [OF parseGroupItem_progresses] matchLiteral_progress)

lemma parseHavingClause_rollsBack: "rollsBack parseHavingClause"
  unfolding rollsBack_def parseHavingClause_def Let_def parseCompareOp_def
  by (auto split: prod.splits option.splits bool.splits
      dest!: progressesD [OF parseAggExpr_progresses] progressesD [OF parseNumber_progresses]
        firstLiteral_progress matchLiteral_progress)

lemma parseOrderItem_rollsBack: "rollsBack parseOrderItem"
  unfolding rollsBack_def parseOrderItem_def Let_def
  by (auto split: prod.splits option.splits bool.splits
      dest!: progressesD [OF parseAggExpr_progresses]
        progressesD [OF parseColumnRef_progresses] progressesD [OF parseAlias_progresses])

lemma parseOrderClause_rollsBack: "rollsBack parseOrderClause"
  unfolding rollsBack_def parseOrderClause_def Let_def
  by (auto split: prod.splits option.splits bool.splits
      dest!: progressesD [OF parseOrderItem_progresses] matchLiteral_progress)

lemma parseLimitClause_rollsBack: "rollsBack parseLimitClause"
  unfolding rollsBack_def parseLimitClause_def Let_def
  by (auto split: prod.splits option.splits bool.splits
      dest!: progressesD [OF parseNumber_progresses] matchLiteral_progress)

definition ruleFunctions :: "parser list" where
  "ruleFunctions =
     [parseSelectClause, parseSelectItem, parseAggExpr, parseFromClause, parseWhereClause,
      parseCondition, parseStringCondition, parseNumericCondition, parseDatetimeCondition,
      parseEnumCondition, parseGroupClause, parseGroupItem, parseHavingClause, parseOrderClause,
      parseOrderItem, parseLimitClause,
      parseNumber, parseAlias, parseStringValue, parseDateLiteral, parseColumnRef, parseAggFunc,
      parseDateTruncExpr, parseCompareOp]"

lemma ruleFunctions_rollBack: "\<forall>p \<in> set ruleFunctions. rollsBack p"
  unfolding ruleFunctions_def
  by (simp add: parseSelectClause_rollsBack parseSelectItem_rollsBack parseAggExpr_rollsBack
      parseFromClause_rollsBack parseWhereClause_rollsBack parseCondition_rollsBack
      parseStringCondition_rollsBack parseNumericCondition_rollsBack
      parseDatetimeCondition_rollsBack parseEnumCondition_rollsBack parseGroupClause_rollsBack
      parseGroupItem_rollsBack parseHavingClause_rollsBack parseOrderClause_rollsBack
      parseOrderItem_rollsBack parseLimitClause_rollsBack parseNumber_rollsBack
      parseAlias_rollsBack parseStringValue_rollsBack parseDateLiteral_rollsBack
      parseColumnRef_rollsBack parseAggFunc_rollsBack parseDateTruncExpr_rollsBack
      parseCompareOp_rollsBack)

text \<open>
  Claim C9. Every rule function of the parser, clause parsers, item parsers, condition
  parsers and terminal parsers alike, leaves the state as it found it when it returns
  null: the cursor is back at its value at entry (and the input is never changed). The
  functions are total and return null as a value; the source has no \<open>throw\<close>.
\<close>

theorem no_side_effects_on_failure:
  assumes "p \<in> set ruleFunctions" and "p st = (None, st')"
  shows "st' = st \<and> pos st' = pos st"
  using assms ruleFunctions_rollBack rollsBackD by blast

theorem no_side_effects_on_failure_witness:
  "parseWhereClause \<in> set ruleFunctions \<and>
   parseWhereClause \<lparr>input = '' WHERE idx = 5'', pos = 0\<rparr> = (None, \<lparr>input = '' WHERE idx = 5'', pos = 0\<rparr>) \<and>
   pos \<lparr>input = '' WHERE idx = 5'', pos = 0\<rparr> = 0"
proof -
  have m: "parseWhereClause \<in> set ruleFunctions" by (simp add: ruleFunctions_def)
  obtain r st' where e: "parseWhereClause \<lparr>input = '' WHERE idx = 5'', pos = 0\<rparr> = (r, st')"
    by (cases "parseWhereClause \<lparr>input = '' WHERE idx = 5'', pos = 0\<rparr>")
  have "fst (parseWhereClause \<lparr>input = '' WHERE idx = 5'', pos = 0\<rparr>) = None" by code_simp
  with e have r: "r = None" by simp
  from no_side_effects_on_failure [OF m e [unfolded r]] e r m show ?thesis by simp
qed


section \<open>Coverage of the verifier\<close>

text \<open>
  Claim C1. Each of the six statements of the negative coverage list is rejected:
  \<open>parseQuery\<close> returns null (the SELECT clause does not match), so
  \<open>isValidGrammarSQL\<close> is false.
\<close>

theorem negative_coverage_rejected:
  "parseQuery ''DROP TABLE github_events'' = None \<and>
   \<not> isValidGrammarSQL ''DROP TABLE github_events'' \<and>
   parseQuery ''SELECT * FROM github_events'' = None \<and>
   \<not> isValidGrammarSQL ''SELECT * FROM github_events'' \<and>
   parseQuery ''SELECT 1; DROP TABLE github_events'' = None \<and>
   \<not> isValidGrammarSQL ''SELECT 1; DROP TABLE github_events'' \<and>
   parseQuery ''SELECT a.x FROM github_events a JOIN t b ON a.x=b.x'' = None \<and>
   \<not> isValidGrammarSQL ''SELECT a.x FROM github_events a JOIN t b ON a.x=b.x'' \<and>
   parseQuery ''WITH t AS (SELECT 1) SELECT * FROM t'' = None \<and>
   \<not> isValidGrammarSQL ''WITH t AS (SELECT 1) SELECT * FROM t'' \<and>
   parseQuery ''SELECT * FROM system.processes'' = None \<and>
   \<not> isValidGrammarSQL ''SELECT * FROM system.processes''"
proof -
  have a: "parseQuery ''DROP TABLE github_events'' = None" by code_simp
  have b: "parseQuery ''SELECT * FROM github_events'' = None" by code_simp
  have c: "parseQuery ''SELECT 1; DROP TABLE github_events'' = None" by code_simp
  have d: "parseQuery ''SELECT a.x FROM github_events a JOIN t b ON a.x=b.x'' = None"
    by code_simp
  have e: "parseQuery ''WITH t AS (SELECT 1) SELECT * FROM t'' = None" by code_simp
  have f: "parseQuery ''SELECT * FROM system.processes'' = None" by code_simp
  show ?thesis by (simp add: isValidGrammarSQL_def a b c d e f)
qed

text \<open>The three statements of the positive coverage list.\<close>

definition POSITIVE_1 :: string where
  "POSITIVE_1 = ''SELECT count() AS total FROM github_events WHERE type = '' @ sq @ ''PushEvent'' @ sq"

definition POSITIVE_2 :: string where
  "POSITIVE_2 =
     ''SELECT repo_name, count() AS pushes FROM github_events WHERE type = '' @ sq @ ''PushEvent'' @ sq @
     '' GROUP BY repo_name ORDER BY pushes DESC LIMIT 10''"

definition POSITIVE_3 :: string where
  "POSITIVE_3 =
     ''SELECT toStartOfHour(created_at) AS hour, count() AS events FROM github_events GROUP BY hour ORDER BY hour ASC''"

text \<open>
  The parse of a statement ends in a node of rule \<open>query\<close> with the cursor at the end
  of the statement, and the statement is valid.
\<close>

definition acceptedInFull :: "string \<Rightarrow> bool" where
  "acceptedInFull sql =
     (map_option rule (parseQuery sql) = Some ''query'' \<and>
      input (snd (runQuery sql)) = sql \<and> isAtEnd (snd (runQuery sql)) \<and>
      pos (snd (runQuery sql)) = length sql \<and> isValidGrammarSQL sql)"

text \<open>
  Claim C4. Each of the three statements of the positive coverage list is parsed to a
  node of rule \<open>query\<close>, with the cursor at the end of the whole input, and
  \<open>isValidGrammarSQL\<close> is true.
\<close>

theorem positive_coverage_accepted:
  "acceptedInFull POSITIVE_1 \<and> acceptedInFull POSITIVE_2 \<and> acceptedInFull POSITIVE_3"
proof -
  have a: "acceptedInFull POSITIVE_1" by code_simp
  have b: "acceptedInFull POSITIVE_2" by code_simp
  have c: "acceptedInFull POSITIVE_3" by code_simp
  from a b c show ?thesis by simp
qed

text \<open>
  Claim C5. A statement with a dangling \<open>AND\<close> is accepted: the loop of
  \<open>parseWhereClause\<close> consumes the separator, the condition after it fails, and the
  clause succeeds all the same with the cursor after the separator (position 56, the
  clause having started at 38); its text holds the one condition. With a second space
  after \<open>AND\<close> the GROUP BY clause then matches. The loop of \<open>parseSelectClause\<close>
  swallows a dangling comma in the same way.
\<close>

theorem dangling_separator_accepted:
  "isValidGrammarSQL ''SELECT count() AS c FROM github_events WHERE id = 5 AND  GROUP BY x'' \<and>
   parseWhereClause
     \<lparr>input = ''SELECT count() AS c FROM github_events WHERE id = 5 AND  GROUP BY x'', pos = 38\<rparr> =
     (Some (Node ''where_clause'' ''WHERE id = 5''
        [Node ''numeric_condition'' ''id = 5''
           [Node ''numeric_col'' ''id'' [], Node ''compare_op'' ''='' [], Node ''number'' ''5'' []]]),
      \<lparr>input = ''SELECT count() AS c FROM github_events WHERE id = 5 AND  GROUP BY x'', pos = 56\<rparr>) \<and>
   parseCondition
     \<lparr>input = ''SELECT count() AS c FROM github_events WHERE id = 5 AND  GROUP BY x'', pos = 56\<rparr> =
     (None,
      \<lparr>input = ''SELECT count() AS c FROM github_events WHERE id = 5 AND  GROUP BY x'', pos = 56\<rparr>) \<and>
   isValidGrammarSQL ''SELECT id,  FROM github_events''"
proof -
  have a: "isValidGrammarSQL ''SELECT count() AS c FROM github_events WHERE id = 5 AND  GROUP BY x''"
    by code_simp
  have b: "parseWhereClause
     \<lparr>input = ''SELECT count() AS c FROM github_events WHERE id = 5 AND  GROUP BY x'', pos = 38\<rparr> =
     (Some (Node ''where_clause'' ''WHERE id = 5''
        [Node ''numeric_condition'' ''id = 5''
           [Node ''numeric_col'' ''id'' [], Node ''compare_op'' ''='' [], Node ''number'' ''5'' []]]),
      \<lparr>input = ''SELECT count() AS c FROM github_events WHERE id = 5 AND  GROUP BY x'', pos = 56\<rparr>)"
    by code_simp
  have c: "parseCondition
     \<lparr>input = ''SELECT count() AS c FROM github_events WHERE id = 5 AND  GROUP BY x'', pos = 56\<rparr> =
     (None,
      \<lparr>input = ''SELECT count() AS c FROM github_events WHERE id = 5 AND  GROUP BY x'', pos = 56\<rparr>)"
    by code_simp
  have d: "isValidGrammarSQL ''SELECT id,  FROM github_events''" by code_simp
  from a b c d show ?thesis by simp
qed

text \<open>
  Claim C10. A valid prefix followed by unconsumed input gives a node of rule
  \<open>query (partial)\<close> that wraps the clauses matched so far, and the membership test
  is false on it.
\<close>

theorem partial_parse_distinguished:
  "parseQuery ''SELECT count() AS total FROM github_events EXTRA_GARBAGE'' =
     Some (Node ''query (partial)'' ''SELECT count() AS total FROM github_events EXTRA_GARBAGE''
       [Node ''select_clause'' ''SELECT count() AS total''
          [Node ''select_item'' ''count() AS total''
             [Node ''agg_expr'' ''count()'' [Node ''agg_func'' ''count'' []],
              Node ''alias'' ''total'' []]],
        Node ''from_clause'' ''FROM github_events'' []]) \<and>
   \<not> isValidGrammarSQL ''SELECT count() AS total FROM github_events EXTRA_GARBAGE''"
proof -
  have a: "parseQuery ''SELECT count() AS total FROM github_events EXTRA_GARBAGE'' =
     Some (Node ''query (partial)'' ''SELECT count() AS total FROM github_events EXTRA_GARBAGE''
       [Node ''select_clause'' ''SELECT count() AS total''
          [Node ''select_item'' ''count() AS total''
             [Node ''agg_expr'' ''count()'' [Node ''agg_func'' ''count'' []],
              Node ''alias'' ''total'' []]],
        Node ''from_clause'' ''FROM github_events'' []])"
    by code_simp
  have b: "\<not> isValidGrammarSQL ''SELECT count() AS total FROM github_events EXTRA_GARBAGE''"
    by code_simp
  from a b show ?thesis by simp
qed

text \<open>
  Claim C8. \<open>COMPARE_OPS\<close> lists the two-character operators first: where the rest
  of the input begins with \<open>!=\<close>, \<open>>=\<close> or \<open><=\<close>, \<open>parseCompareOp\<close> returns that
  operator whole and moves the cursor by two. So \<open>id != 5\<close> is a numeric condition whose
  operator is the one token \<open>!=\<close>.
\<close>

theorem compare_op_two_chars_first:
  assumes "op \<in> {''!='', ''>='', ''<=''}" and "prefix op (remaining st)"
  shows "parseCompareOp st = (Some (Node ''compare_op'' op []), st\<lparr>pos := pos st + 2\<rparr>) \<and>
    parseNumericCondition \<lparr>input = ''id != 5'', pos = 0\<rparr> =
      (Some (Node ''numeric_condition'' ''id != 5''
         [Node ''numeric_col'' ''id'' [], Node ''compare_op'' ''!='' [], Node ''number'' ''5'' []]),
       \<lparr>input = ''id != 5'', pos = 7\<rparr>)"
proof -
  from assms(2) obtain zs where r: "drop (pos st) (input st) = op @ zs"
    unfolding remaining_def by (auto elim: prefixE)
  from assms(1) r
  have a: "parseCompareOp st = (Some (Node ''compare_op'' op []), st\<lparr>pos := pos st + 2\<rparr>)"
    by (auto simp: parseCompareOp_def COMPARE_OPS_def matchLiteral_def)
  have b: "parseNumericCondition \<lparr>input = ''id != 5'', pos = 0\<rparr> =
      (Some (Node ''numeric_condition'' ''id != 5''
         [Node ''numeric_col'' ''id'' [], Node ''compare_op'' ''!='' [], Node ''number'' ''5'' []]),
       \<lparr>input = ''id != 5'', pos = 7\<rparr>)"
    by code_simp
  from a b show ?thesis by simp
qed

theorem compare_op_two_chars_first_witness:
  "''>='' \<in> {''!='', ''>='', ''<=''} \<and> prefix ''>='' (remaining \<lparr>input = ''id >= 10'', pos = 3\<rparr>) \<and>
   parseCompareOp \<lparr>input = ''id >= 10'', pos = 3\<rparr> =
     (Some (Node ''compare_op'' ''>='' []), \<lparr>input = ''id >= 10'', pos = 5\<rparr>)"
proof -
  have m: "''>='' \<in> {''!='', ''>='', ''<=''}" by simp
  have p: "prefix ''>='' (remaining \<lparr>input = ''id >= 10'', pos = 3\<rparr>)"
    by (simp add: remaining_def)
  from compare_op_two_chars_first [OF m p] m p show ?thesis by simp
qed


section \<open>The text of the root node\<close>

text \<open>
  Claim C3, as stated: the root's \<open>matchedText\<close> of an accepted statement is the trimmed
  input. \<open>parseQuery\<close> parses \<open>sql.trim()\<close> and builds the root with \<open>sql\<close> itself:
  an accepted statement with a leading space keeps that space in the root's text.
\<close>

theorem root_text_not_trimmed_counterexample:
  "isValidGrammarSQL '' SELECT id FROM github_events'' \<and>
   map_option matchedText (parseQuery '' SELECT id FROM github_events'') =
     Some '' SELECT id FROM github_events'' \<and>
   trim '' SELECT id FROM github_events'' = ''SELECT id FROM github_events'' \<and>
   map_option matchedText (parseQuery '' SELECT id FROM github_events'') \<noteq>
     Some (trim '' SELECT id FROM github_events'')"
proof -
  have a: "isValidGrammarSQL '' SELECT id FROM github_events''" by code_simp
  have b: "map_option matchedText (parseQuery '' SELECT id FROM github_events'') =
     Some '' SELECT id FROM github_events''" by code_simp
  have c: "trim '' SELECT id FROM github_events'' = ''SELECT id FROM github_events''"
    by code_simp
  from a b c show ?thesis by auto
qed

lemma runQuery_text:
  "runQuery sql = (Some n, st) \<Longrightarrow> matchedText n = sql"
  unfolding runQuery_def Let_def
  by (auto split: prod.splits option.splits if_splits)

text \<open>
  Claim C3, amended: for every accepted statement the root node has rule \<open>query\<close> and
  its \<open>matchedText\<close> is the input as it was passed, untrimmed; it is the trimmed input
  exactly when the input has no white space at either end.
\<close>

theorem root_text_is_input:
  assumes "isValidGrammarSQL s"
  shows "\<exists>n. parseQuery s = Some n \<and> rule n = ''query'' \<and> matchedText n = s \<and>
    (matchedText n = trim s \<longleftrightarrow> trim s = s)"
proof -
  from assms obtain n where n: "parseQuery s = Some n" and r: "rule n = ''query''"
    by (auto simp: isValidGrammarSQL_def split: option.splits)
  obtain st where "runQuery s = (Some n, st)"
    using n unfolding parseQuery_def by (cases "runQuery s") auto
  then have "matchedText n = s" by (rule runQuery_text)
  with n r show ?thesis by auto
qed

theorem root_text_is_input_witness:
  "isValidGrammarSQL '' SELECT id FROM github_events'' \<and>
   (\<exists>n. parseQuery '' SELECT id FROM github_events'' = Some n \<and> rule n = ''query'' \<and>
      matchedText n = '' SELECT id FROM github_events'')"
proof -
  have a: "isValidGrammarSQL '' SELECT id FROM github_events''" by code_simp
  from root_text_is_input [OF a] a show ?thesis by blast
qed

section \<open>Group items and order items\<close>

text \<open>
  Claim C6, as stated: a group item and an order item are a column reference or a date
  truncation, and nothing else. \<open>parseGroupItem\<close> accepts the bare identifier \<open>hour\<close>,
  which is neither; \<open>parseOrderItem\<close> accepts an aggregate expression, and of a date
  truncation it takes the two letters \<open>to\<close> as an alias.
\<close>

theorem group_order_items_counterexample:
  "parseGroupItem \<lparr>input = ''hour'', pos = 0\<rparr> =
     (Some (Node ''group_item'' ''hour'' [Node ''alias'' ''hour'' []]), \<lparr>input = ''hour'', pos = 4\<rparr>) \<and>
   parseColumnRef \<lparr>input = ''hour'', pos = 0\<rparr> = (None, \<lparr>input = ''hour'', pos = 0\<rparr>) \<and>
   parseDateTruncExpr \<lparr>input = ''hour'', pos = 0\<rparr> = (None, \<lparr>input = ''hour'', pos = 0\<rparr>) \<and>
   parseOrderItem \<lparr>input = ''count() DESC'', pos = 0\<rparr> =
     (Some (Node ''order_item'' ''count() DESC''
        [Node ''agg_expr'' ''count()'' [Node ''agg_func'' ''count'' []],
         Node ''direction'' ''DESC'' []]),
      \<lparr>input = ''count() DESC'', pos = 12\<rparr>) \<and>
   parseOrderItem \<lparr>input = ''toDate(created_at)'', pos = 0\<rparr> =
     (Some (Node ''order_item'' ''to'' [Node ''alias'' ''to'' []]),
      \<lparr>input = ''toDate(created_at)'', pos = 2\<rparr>)"
proof -
  have a: "parseGroupItem \<lparr>input = ''hour'', pos = 0\<rparr> =
     (Some (Node ''group_item'' ''hour'' [Node ''alias'' ''hour'' []]), \<lparr>input = ''hour'', pos = 4\<rparr>)"
    by code_simp
  have b: "parseColumnRef \<lparr>input = ''hour'', pos = 0\<rparr> = (None, \<lparr>input = ''hour'', pos = 0\<rparr>)"
    by code_simp
  have c: "parseDateTruncExpr \<lparr>input = ''hour'', pos = 0\<rparr> = (None, \<lparr>input = ''hour'', pos = 0\<rparr>)"
    by code_simp
  have d: "parseOrderItem \<lparr>input = ''count() DESC'', pos = 0\<rparr> =
     (Some (Node ''order_item'' ''count() DESC''
        [Node ''agg_expr'' ''count()'' [Node ''agg_func'' ''count'' []],
         Node ''direction'' ''DESC'' []]),
      \<lparr>input = ''count() DESC'', pos = 12\<rparr>)"
    by code_simp
  have e: "parseOrderItem \<lparr>input = ''toDate(created_at)'', pos = 0\<rparr> =
     (Some (Node ''order_item'' ''to'' [Node ''alias'' ''to'' []]),
      \<lparr>input = ''toDate(created_at)'', pos = 2\<rparr>)"
    by code_simp
  from a b c d e show ?thesis by simp
qed

lemma regexTerminal_rule: "regexTerminal r re st = (Some n, st') \<Longrightarrow> rule n = r \<and> children n = []"
  unfolding regexTerminal_def by (auto split: prod.splits option.splits if_splits)

lemma parseColumnRef_Some:
  "parseColumnRef st = (Some n, st') \<Longrightarrow>
     n = Node ''column_ref'' (matchedText n) [] \<and> matchedText n \<in> set KNOWN_COLUMNS"
  unfolding parseColumnRef_def Let_def sortByLengthDesc_def
  by (auto split: prod.splits option.splits dest!: firstLiteral_Some)

lemma parseDateTruncExpr_Some:
  "parseDateTruncExpr st = (Some n, st') \<Longrightarrow>
     n = Node ''date_trunc_expr'' (matchedText n) [] \<and> matchedText n \<in> set DATE_TRUNC_EXPRS"
  unfolding parseDateTruncExpr_def sortByLengthDesc_def
  by (auto dest!: firstLiteral_Some)

lemma parseAggExpr_Some: "parseAggExpr st = (Some n, st') \<Longrightarrow> rule n = ''agg_expr''"
  unfolding parseAggExpr_def Let_def
  by (auto split: prod.splits option.splits bool.splits)

text \<open>
  Claim C6, amended: \<open>parseGroupItem\<close> succeeds only on a date truncation, else a
  column reference, else an alias (tried in this order), and wraps that one node;
  \<open>parseOrderItem\<close> succeeds only on an aggregate expression, else a column reference,
  else an alias, optionally followed by \<open>DESC\<close> or \<open>ASC\<close> (tried in this order).
\<close>

theorem group_order_item_shapes:
  assumes "parseGroupItem st = (Some g, st1)" and "parseOrderItem st = (Some n, st2)"
  shows "(\<exists>c. g = Node ''group_item'' (matchedText c) [c] \<and>
            (parseDateTruncExpr st = (Some c, st1) \<and> rule c = ''date_trunc_expr'' \<or>
             parseDateTruncExpr st = (None, st) \<and> parseColumnRef st = (Some c, st1) \<and>
               rule c = ''column_ref'' \<or>
             parseDateTruncExpr st = (None, st) \<and> parseColumnRef st = (None, st) \<and>
               parseAlias st = (Some c, st1) \<and> rule c = ''alias'')) \<and>
         (\<exists>b st3.
            (parseAggExpr st = (Some b, st3) \<and> rule b = ''agg_expr'' \<or>
             parseAggExpr st = (None, st) \<and> parseColumnRef st = (Some b, st3) \<and>
               rule b = ''column_ref'' \<or>
             parseAggExpr st = (None, st) \<and> parseColumnRef st = (None, st) \<and>
               parseAlias st = (Some b, st3) \<and> rule b = ''alias'') \<and>
            (matchLiteral '' DESC'' st3 = (True, st2) \<and>
               n = Node ''order_item'' (matchedText b @ '' DESC'') [b, Node ''direction'' ''DESC'' []] \<or>
             matchLiteral '' DESC'' st3 = (False, st3) \<and> matchLiteral '' ASC'' st3 = (True, st2) \<and>
               n = Node ''order_item'' (matchedText b @ '' ASC'') [b, Node ''direction'' ''ASC'' []] \<or>
             matchLiteral '' DESC'' st3 = (False, st3) \<and> matchLiteral '' ASC'' st3 = (False, st3) \<and>
               st2 = st3 \<and> n = Node ''order_item'' (matchedText b) [b]))"
    (is "?G \<and> ?O")
proof -
  have g: ?G
  proof (cases "parseDateTruncExpr st")
    case d: (Pair rd sd)
    show ?thesis
    proof (cases rd)
      case (Some c)
      with d assms(1) parseDateTruncExpr_Some [of st c sd] show ?thesis
        by (auto simp: parseGroupItem_def intro!: exI [of _ c]) (metis GrammarDerivationNode.sel(1))
    next
      case None
      with d have d': "parseDateTruncExpr st = (None, st)"
        using rollsBackD [OF parseDateTruncExpr_rollsBack] by blast
      show ?thesis
      proof (cases "parseColumnRef st")
        case c: (Pair rc sc)
        show ?thesis
        proof (cases rc)
          case (Some c')
          with c d' assms(1) parseColumnRef_Some [of st c' sc] show ?thesis
            by (auto simp: parseGroupItem_def intro!: exI [of _ c']) (metis GrammarDerivationNode.sel(1))
        next
          case None
          with c have c': "parseColumnRef st = (None, st)"
            using rollsBackD [OF parseColumnRef_rollsBack] by blast
          obtain ra sa where a: "parseAlias st = (ra, sa)" by (cases "parseAlias st")
          with c' d' assms(1) obtain al where "ra = Some al" "sa = st1"
            "g = Node ''group_item'' (matchedText al) [al]"
            by (cases ra) (auto simp: parseGroupItem_def)
          moreover from this a have "rule al = ''alias''"
            using regexTerminal_rule [of "''alias''" RE_ALIAS st al st1]
            by (simp add: parseAlias_def)
          ultimately show ?thesis using a c' d' by auto
        qed
      qed
    qed
  qed
  have o: ?O
  proof -
    define base where "base =
      (case parseAggExpr st of
         (Some a, s1) \<Rightarrow> (Some a, s1)
       | (None, s1) \<Rightarrow>
           (case parseColumnRef s1 of
              (Some c, s2) \<Rightarrow> (Some c, s2)
            | (None, s2) \<Rightarrow> parseAlias s2))"
    obtain rb st3 where b: "base = (rb, st3)" by (cases base)
    have unfold: "parseOrderItem st =
      (case rb of
         None \<Rightarrow> (None, st3\<lparr>pos := pos st\<rparr>)
       | Some baseNode \<Rightarrow>
           (case matchLiteral '' DESC'' st3 of
              (True, st4) \<Rightarrow>
                (Some (Node ''order_item'' (matchedText baseNode @ '' DESC'')
                   [baseNode, Node ''direction'' ''DESC'' []]), st4)
            | (False, st4) \<Rightarrow>
                (case matchLiteral '' ASC'' st4 of
                   (True, st5) \<Rightarrow>
                     (Some (Node ''order_item'' (matchedText baseNode @ '' ASC'')
                        [baseNode, Node ''direction'' ''ASC'' []]), st5)
                 | (False, st5) \<Rightarrow>
                     (Some (Node ''order_item'' (matchedText baseNode) [baseNode]), st5))))"
      using b unfolding base_def parseOrderItem_def Let_def
      by (auto split: prod.splits option.splits)
    from assms(2) unfold obtain bn where rb: "rb = Some bn" by (cases rb) auto
    have src: "parseAggExpr st = (Some bn, st3) \<and> rule bn = ''agg_expr'' \<or>
             parseAggExpr st = (None, st) \<and> parseColumnRef st = (Some bn, st3) \<and>
               rule bn = ''column_ref'' \<or>
             parseAggExpr st = (None, st) \<and> parseColumnRef st = (None, st) \<and>
               parseAlias st = (Some bn, st3) \<and> rule bn = ''alias''"
    proof (cases "parseAggExpr st")
      case a: (Pair ra sa)
      show ?thesis
      proof (cases ra)
        case (Some x)
        with a b rb parseAggExpr_Some [of st x sa] show ?thesis
          by (auto simp: base_def)
      next
        case None
        with a have a': "parseAggExpr st = (None, st)"
          using rollsBackD [OF parseAggExpr_rollsBack] by blast
        show ?thesis
        proof (cases "parseColumnRef st")
          case c: (Pair rc sc)
          show ?thesis
          proof (cases rc)
            case (Some c')
            with c a' b rb parseColumnRef_Some [of st c' sc] show ?thesis
              by (auto simp: base_def) (metis GrammarDerivationNode.sel(1))
          next
            case None
            with c have c': "parseColumnRef st = (None, st)"
              using rollsBackD [OF parseColumnRef_rollsBack] by blast
            from a' c' b rb have al: "parseAlias st = (Some bn, st3)"
              by (simp add: base_def)
            then have "rule bn = ''alias''"
              using regexTerminal_rule [of "''alias''" RE_ALIAS st bn st3]
              by (simp add: parseAlias_def)
            with a' c' al show ?thesis by simp
          qed
        qed
      qed
    qed
    have dir: "matchLiteral '' DESC'' st3 = (True, st2) \<and>
               n = Node ''order_item'' (matchedText bn @ '' DESC'') [bn, Node ''direction'' ''DESC'' []] \<or>
             matchLiteral '' DESC'' st3 = (False, st3) \<and> matchLiteral '' ASC'' st3 = (True, st2) \<and>
               n = Node ''order_item'' (matchedText bn @ '' ASC'') [bn, Node ''direction'' ''ASC'' []] \<or>
             matchLiteral '' DESC'' st3 = (False, st3) \<and> matchLiteral '' ASC'' st3 = (False, st3) \<and>
               st2 = st3 \<and> n = Node ''order_item'' (matchedText bn) [bn]"
      using assms(2) unfold rb
      by (auto split: prod.splits bool.splits dest: matchLiteral_False)
    from src dir show ?thesis by blast
  qed
  from g o show ?thesis by blast
qed

theorem group_order_item_shapes_witness:
  "parseGroupItem \<lparr>input = ''hour ASC'', pos = 0\<rparr> =
     (Some (Node ''group_item'' ''hour'' [Node ''alias'' ''hour'' []]), \<lparr>input = ''hour ASC'', pos = 4\<rparr>) \<and>
   parseOrderItem \<lparr>input = ''hour ASC'', pos = 0\<rparr> =
     (Some (Node ''order_item'' ''hour ASC'' [Node ''alias'' ''hour'' [], Node ''direction'' ''ASC'' []]),
      \<lparr>input = ''hour ASC'', pos = 8\<rparr>) \<and>
   (\<exists>c. Node ''group_item'' ''hour'' [Node ''alias'' ''hour'' []] = Node ''group_item'' (matchedText c) [c])"
proof -
  have a: "parseGroupItem \<lparr>input = ''hour ASC'', pos = 0\<rparr> =
     (Some (Node ''group_item'' ''hour'' [Node ''alias'' ''hour'' []]), \<lparr>input = ''hour ASC'', pos = 4\<rparr>)"
    by code_simp
  have b: "parseOrderItem \<lparr>input = ''hour ASC'', pos = 0\<rparr> =
     (Some (Node ''order_item'' ''hour ASC'' [Node ''alias'' ''hour'' [], Node ''direction'' ''ASC'' []]),
      \<lparr>input = ''hour ASC'', pos = 8\<rparr>)"
    by code_simp
  from group_order_item_shapes [OF a b] a b show ?thesis by blast
qed



section \<open>The grammar template and its materializer\<close>

subsection \<open>Schema types and the schema registry (lib/types, lib/clickhouse/schema.ts)\<close>

record ColumnInfo =
  name :: string
  type :: string
  enumValues :: "string list option"

record TableSchema =
  tableName :: string
  columns :: "ColumnInfo list"

definition KNOWN_EVENT_TYPES :: "string list" where
  "KNOWN_EVENT_TYPES =
     [''CommitCommentEvent'', ''CreateEvent'', ''DeleteEvent'', ''ForkEvent'', ''GollumEvent'',
      ''IssueCommentEvent'', ''IssuesEvent'', ''MemberEvent'', ''PublicEvent'', ''PullRequestEvent'',
      ''PullRequestReviewCommentEvent'', ''PullRequestReviewEvent'', ''PushEvent'', ''ReleaseEvent'',
      ''SponsorshipEvent'', ''WatchEvent'']"

definition KNOWN_ACTION_VALUES :: "string list" where
  "KNOWN_ACTION_VALUES =
     [''opened'', ''closed'', ''reopened'', ''created'', ''edited'', ''deleted'', ''added'',
      ''removed'', ''published'']"

definition STATIC_SCHEMA :: TableSchema where
  "STATIC_SCHEMA =
     \<lparr>tableName = ''github_events'',
      columns =
        [\<lparr>name = ''id'', type = ''UInt64'', enumValues = None\<rparr>,
         \<lparr>name = ''type'', type = ''Enum8'', enumValues = Some KNOWN_EVENT_TYPES\<rparr>,
         \<lparr>name = ''actor_login'', type = ''LowCardinality(String)'', enumValues = None\<rparr>,
         \<lparr>name = ''repo_name'', type = ''LowCardinality(String)'', enumValues = None\<rparr>,
         \<lparr>name = ''created_at'', type = ''DateTime'', enumValues = None\<rparr>,
         \<lparr>name = ''action'', type = ''LowCardinality(String)'', enumValues = None\<rparr>,
         \<lparr>name = ''number'', type = ''UInt32'', enumValues = None\<rparr>,
         \<lparr>name = ''title'', type = ''String'', enumValues = None\<rparr>,
         \<lparr>name = ''body'', type = ''String'', enumValues = None\<rparr>,
         \<lparr>name = ''ref'', type = ''LowCardinality(String)'', enumValues = None\<rparr>,
         \<lparr>name = ''is_private'', type = ''UInt8'', enumValues = None\<rparr>]\<rparr>"

definition isStringType :: "string \<Rightarrow> bool" where
  "isStringType t =
     (t = ''String'' \<or> prefix ''LowCardinality(String'' t \<or> prefix ''Nullable(String'' t)"

definition isNumericType :: "string \<Rightarrow> bool" where
  "isNumericType t =
     (prefix ''UInt'' t \<or> prefix ''Int'' t \<or> prefix ''Float'' t \<or> prefix ''Decimal'' t)"

definition isDateTimeType :: "string \<Rightarrow> bool" where
  "isDateTimeType t = (t = ''DateTime'' \<or> t = ''Date'' \<or> prefix ''DateTime64'' t)"

subsection \<open>The template (lib/cfg/grammar-template.ts)\<close>

abbreviation dq :: string where
  "dq \<equiv> [CHR 0x22]"

text \<open>
  The rulers of the template's comment lines are runs of U+2500, here in UTF-8 (three
  bytes each); no rule of the grammar and no placeholder holds one.
\<close>

definition hbar :: "nat \<Rightarrow> string" where
  "hbar n = concat (replicate n [CHR 0xE2, CHR 0x94, CHR 0x80])"

text \<open>The lines of the template literal after \<open>.trim()\<close>.\<close>

definition TEMPLATE_LINES :: "string list" where
  \<open>TEMPLATE_LINES =
     [
      ''// Parsec ClickHouse SQL Grammar (Lark)'',
      ''// Generates read-only SELECT queries against a single table.'',
      [],
      ''start: select_clause from_clause where_clause? group_clause? having_clause? order_clause? limit_clause?'',
      [],
      ''// '' @ hbar 2 @ '' SELECT '' @ hbar 50,
      [],
      ''select_clause: "SELECT " select_list'',
      ''select_list: select_item (", " select_item)*'',
      ''select_item: agg_expr " AS " ALIAS'',
      ''           | date_trunc_expr " AS " ALIAS'',
      ''           | column_ref'',
      [],
      ''// '' @ hbar 2 @ '' Aggregation '' @ hbar 45,
      [],
      ''agg_expr: agg_func "(" column_ref? ")"'',
      ''agg_func: "count" | "sum" | "avg" | "min" | "max" | "uniq" | "uniqExact"'',
      [],
      ''// '' @ hbar 2 @ '' Date truncation '' @ hbar 41,
      [],
      ''date_trunc_expr: "toStartOfHour(created_at)"'',
      ''               | "toStartOfDay(created_at)"'',
      ''               | "toStartOfWeek(created_at)"'',
      ''               | "toStartOfMonth(created_at)"'',
      ''               | "toDate(created_at)"'',
      [],
      ''// '' @ hbar 2 @ '' FROM '' @ hbar 52,
      [],
      ''from_clause: " FROM {{TABLE_NAME}}"'',
      [],
      ''// '' @ hbar 2 @ '' WHERE '' @ hbar 51,
      [],
      ''where_clause: " WHERE " condition (" AND " condition)*'',
      ''condition: string_condition | numeric_condition | datetime_condition | enum_condition'',
      [],
      ''string_condition: string_col " = '" STRING_VALUE "'"'',
      ''                | string_col " LIKE '%" STRING_VALUE "%'"'',
      ''                | string_col " IN (" string_list ")"'',
      [],
      ''numeric_condition: numeric_col " " compare_op " " NUMBER'',
      [],
      ''datetime_condition: "created_at >= now() - INTERVAL " NUMBER " " time_unit'',
      ''                  | "created_at BETWEEN '" DATE_LITERAL "' AND '" DATE_LITERAL "'"'',
      [],
      ''enum_condition: "type = '" event_type "'"'',
      ''              | "type IN (" event_type_list ")"'',
      ''              | "action = '" action_value "'"'',
      [],
      ''// '' @ hbar 2 @ '' GROUP BY '' @ hbar 48,
      [],
      ''group_clause: " GROUP BY " group_list'',
      ''group_list: group_item (", " group_item)*'',
      ''group_item: column_ref | date_trunc_expr'',
      [],
      ''// '' @ hbar 2 @ '' HAVING '' @ hbar 50,
      [],
      ''having_clause: " HAVING " agg_expr " " compare_op " " NUMBER'',
      [],
      ''// '' @ hbar 2 @ '' ORDER BY '' @ hbar 48,
      [],
      ''order_clause: " ORDER BY " order_list'',
      ''order_list: order_item (", " order_item)*'',
      ''order_item: order_expr order_dir?'',
      ''order_expr: column_ref | ALIAS | agg_expr'',
      ''order_dir: " ASC" | " DESC"'',
      [],
      ''// '' @ hbar 2 @ '' LIMIT '' @ hbar 51,
      [],
      ''limit_clause: " LIMIT " NUMBER'',
      [],
      ''// '' @ hbar 2 @ '' Operators '' @ hbar 47,
      [],
      ''compare_op: "!=" | ">=" | "<=" | "=" | ">" | "<"'',
      ''time_unit: "HOUR" | "DAY" | "WEEK" | "MONTH"'',
      [],
      ''// '' @ hbar 2 @ '' Schema-derived rules (injected by grammar builder) '' @ hbar 6,
      [],
      ''string_col: {{STRING_COLS}}'',
      ''numeric_col: {{NUMERIC_COLS}}'',
      ''column_ref: {{COLUMN_REF}}'',
      [],
      ''event_type: {{EVENT_TYPES}}'',
      ''action_value: {{ACTION_VALUES}}'',
      [],
      ''event_type_list: "'" event_type "'" (", '" event_type "'")*'',
      ''string_list: "'" STRING_VALUE "'" (", '" STRING_VALUE "'")*'',
      [],
      ''// '' @ hbar 2 @ '' Terminals (regex, matched by lexer) '' @ hbar 21,
      [],
      ''ALIAS: /[a-z_][a-z0-9_]{0,29}/'',
      ''STRING_VALUE: /[a-zA-Z0-9_.'' @ [CHR 0x5C] @ ''-'' @ [CHR 0x5C] @ ''/]{1,100}/'',
      ''DATE_LITERAL: /[0-9]{4}-[0-9]{2}-[0-9]{2}/'',
      ''NUMBER: /[0-9]{1,6}/''
     ]\<close>

definition GRAMMAR_TEMPLATE :: string where
  "GRAMMAR_TEMPLATE = joinStrings [CHR 0x0A] TEMPLATE_LINES"

definition TEMPLATE_PLACEHOLDERS :: "string list" where
  "TEMPLATE_PLACEHOLDERS =
     [''{{TABLE_NAME}}'', ''{{STRING_COLS}}'', ''{{NUMERIC_COLS}}'', ''{{COLUMN_REF}}'',
      ''{{EVENT_TYPES}}'', ''{{ACTION_VALUES}}'']"

subsection \<open>String.prototype.replace with a string pattern\<close>

text \<open>
  \<open>indexOf\<close>: the input cut at the first occurrence of the pattern, into the part
  before it and the part after it.
\<close>

fun splitAtFirst :: "string \<Rightarrow> string \<Rightarrow> (string \<times> string) option" where
  "splitAtFirst pat [] = (if pat = [] then Some ([], []) else None)"
| "splitAtFirst pat (c # cs) =
     (if prefix pat (c # cs) then Some ([], drop (length pat) (c # cs))
      else map_option (\<lambda>(pre, post). (c # pre, post)) (splitAtFirst pat cs))"

text \<open>
  \<open>GetSubstitution\<close> for a string pattern, which has no capture groups: \<open>$$\<close> is a
  dollar sign, \<open>$&\<close> the matched text, \<open>$`\<close> the text before the match, \<open>$'\<close> the text
  after it; every other character stands for itself.
\<close>

fun getSubstitution :: "string \<Rightarrow> string \<Rightarrow> string \<Rightarrow> string \<Rightarrow> string" where
  "getSubstitution matched pre post [] = []"
| "getSubstitution matched pre post [c] = [c]"
| "getSubstitution matched pre post (c # d # r) =
     (if c = CHR ''$'' \<and> d = CHR ''$'' then CHR ''$'' # getSubstitution matched pre post r
      else if c = CHR ''$'' \<and> d = CHR ''&'' then matched @ getSubstitution matched pre post r
      else if c = CHR ''$'' \<and> d = CHR 0x60 then pre @ getSubstitution matched pre post r
      else if c = CHR ''$'' \<and> d = CHR 0x27 then post @ getSubstitution matched pre post r
      else c # getSubstitution matched pre post (d # r))"

text \<open>\<open>s.replace(pat, replacement)\<close>: the first occurrence only.\<close>

definition replaceFirst :: "string \<Rightarrow> string \<Rightarrow> string \<Rightarrow> string" where
  "replaceFirst pat replacement s =
     (case splitAtFirst pat s of
        None \<Rightarrow> s
      | Some (pre, post) \<Rightarrow> pre @ getSubstitution pat pre post replacement @ post)"

subsection \<open>The builder (lib/cfg/grammar-builder.ts)\<close>

definition toLarkAlternatives :: "string list \<Rightarrow> string" where
  "toLarkAlternatives values = joinStrings '' | '' (map (\<lambda>v. dq @ v @ dq) values)"

record Classified =
  stringCols :: "string list"
  numericCols :: "string list"
  dateTimeCols :: "string list"
  enumCols :: "(string \<times> string list) list"
  allCols :: "string list"

text \<open>The \<open>else if\<close> chain of \<open>classifyColumns\<close> on the type of a column.\<close>

definition classifyByType :: "Classified \<Rightarrow> ColumnInfo \<Rightarrow> Classified" where
  "classifyByType acc col =
     (if isDateTimeType (type col) then acc\<lparr>dateTimeCols := dateTimeCols acc @ [name col]\<rparr>
      else if isStringType (type col) then acc\<lparr>stringCols := stringCols acc @ [name col]\<rparr>
      else if isNumericType (type col) then acc\<lparr>numericCols := numericCols acc @ [name col]\<rparr>
      else acc)"

text \<open>One round of the loop of \<open>classifyColumns\<close>.\<close>

definition classifyColumn :: "Classified \<Rightarrow> ColumnInfo \<Rightarrow> Classified" where
  "classifyColumn acc col =
     (let acc1 = acc\<lparr>allCols := allCols acc @ [name col]\<rparr> in
      case enumValues col of
        Some vs \<Rightarrow>
          if length vs > 0 then acc1\<lparr>enumCols := enumCols acc1 @ [(name col, vs)]\<rparr>
          else classifyByType acc1 col
      | None \<Rightarrow> classifyByType acc1 col)"

definition classifyColumns :: "TableSchema \<Rightarrow> Classified" where
  "classifyColumns schema =
     foldl classifyColumn
       \<lparr>stringCols = [], numericCols = [], dateTimeCols = [], enumCols = [], allCols = []\<rparr>
       (columns schema)"

text \<open>\<open>[...new Set(xs)]\<close>: the first occurrence of each element, in order.\<close>

definition uniqueInOrder :: "string list \<Rightarrow> string list" where
  "uniqueInOrder xs = rev (remdups (rev xs))"

definition buildGrammar :: "TableSchema \<Rightarrow> string" where
  "buildGrammar schema =
     (let c = classifyColumns schema;
          enumColNames = map fst (enumCols c);
          allColumnRef = stringCols c @ numericCols c @ dateTimeCols c @ enumColNames;
          uniqueColumnRef = uniqueInOrder (filter (\<lambda>x. x \<in> set (allCols c)) allColumnRef);
          eventTypes =
            (case find (\<lambda>e. fst e = ''type'') (enumCols c) of
               Some e \<Rightarrow> snd e
             | None \<Rightarrow> KNOWN_EVENT_TYPES);
          actionValues = KNOWN_ACTION_VALUES;
          g0 = GRAMMAR_TEMPLATE;
          g1 = replaceFirst ''{{TABLE_NAME}}'' (tableName schema) g0;
          g2 = replaceFirst ''{{STRING_COLS}}''
                 (if length (stringCols c) > 0 then toLarkAlternatives (stringCols c)
                  else dq @ ''actor_login'' @ dq) g1;
          g3 = replaceFirst ''{{NUMERIC_COLS}}''
                 (if length (numericCols c) > 0 then toLarkAlternatives (numericCols c)
                  else dq @ ''id'' @ dq) g2;
          g4 = replaceFirst ''{{COLUMN_REF}}''
                 (if length uniqueColumnRef > 0 then toLarkAlternatives uniqueColumnRef
                  else dq @ ''id'' @ dq) g3;
          g5 = replaceFirst ''{{EVENT_TYPES}}'' (toLarkAlternatives eventTypes) g4;
          g6 = replaceFirst ''{{ACTION_VALUES}}'' (toLarkAlternatives actionValues) g5
      in g6)"

text \<open>A text occurs in a string.\<close>

definition occursIn :: "string \<Rightarrow> string \<Rightarrow> bool" where
  "occursIn pat s = (splitAtFirst pat s \<noteq> None)"

subsection \<open>Occurrences of a pattern\<close>

lemma splitAtFirst_Some: "splitAtFirst pat s = Some (u, v) \<Longrightarrow> s = u @ pat @ v"
proof (induction s arbitrary: u)
  case Nil
  then show ?case by (simp split: if_splits)
next
  case (Cons c cs)
  show ?case
  proof (cases "prefix pat (c # cs)")
    case True
    then have "splitAtFirst pat (c # cs) = Some ([], drop (length pat) (c # cs))" by simp
    with Cons.prems have u: "u = []" and v: "v = drop (length pat) (c # cs)" by simp_all
    from True have "take (length pat) (c # cs) = pat"
      by (metis prefixE append_eq_conv_conj)
    then have "c # cs = pat @ drop (length pat) (c # cs)"
      by (metis append_take_drop_id)
    then show ?thesis unfolding u v by simp
  next
    case False
    with Cons.prems obtain u' where "splitAtFirst pat cs = Some (u', v)" and "u = c # u'"
      by auto
    with Cons.IH show ?thesis by simp
  qed
qed

lemma splitAtFirst_here: "splitAtFirst pat (pat @ v) = Some ([], v)"
proof (cases "pat @ v")
  case Nil
  then show ?thesis by simp
next
  case (Cons c cs)
  have "prefix pat (c # cs)" unfolding Cons [symmetric] by simp
  moreover have "drop (length pat) (c # cs) = v" unfolding Cons [symmetric] by simp
  ultimately show ?thesis unfolding Cons by simp
qed

text \<open>No occurrence of the pattern starts inside \<open>u\<close>, whatever follows \<open>u\<close>.\<close>

fun noStart :: "string \<Rightarrow> string \<Rightarrow> bool" where
  "noStart pat [] = True"
| "noStart pat (c # u) = (\<not> prefix pat (c # u) \<and> \<not> prefix (c # u) pat \<and> noStart pat u)"

lemma noStart_head: "c \<notin> set u \<Longrightarrow> noStart (c # p) u"
  by (induction u) auto

lemma noStart_append: "noStart pat u \<Longrightarrow> noStart pat w \<Longrightarrow> noStart pat (u @ w)"
proof (induction u)
  case Nil
  then show ?case by simp
next
  case (Cons c u)
  have a: "\<not> prefix pat (c # u @ w)"
  proof
    assume "prefix pat (c # u @ w)"
    moreover have "prefix (c # u) (c # u @ w)" by simp
    ultimately have "prefix pat (c # u) \<or> prefix (c # u) pat" by (rule prefix_same_cases)
    with Cons.prems(1) show False by simp
  qed
  have b: "\<not> prefix (c # u @ w) pat"
  proof
    assume "prefix (c # u @ w) pat"
    moreover have "prefix (c # u) (c # u @ w)" by simp
    ultimately have "prefix (c # u) pat" using prefix_order.trans by blast
    with Cons.prems(1) show False by simp
  qed
  from a b Cons show ?case by simp
qed

lemma splitAtFirst_skip:
  "noStart pat u \<Longrightarrow>
     splitAtFirst pat (u @ v) = map_option (\<lambda>(p, q). (u @ p, q)) (splitAtFirst pat v)"
proof (induction u)
  case Nil
  show ?case by (cases "splitAtFirst pat v") auto
next
  case (Cons c u)
  have "\<not> prefix pat (c # u @ v)"
  proof
    assume "prefix pat (c # u @ v)"
    moreover have "prefix (c # u) (c # u @ v)" by simp
    ultimately have "prefix pat (c # u) \<or> prefix (c # u) pat" by (rule prefix_same_cases)
    with Cons.prems show False by simp
  qed
  with Cons show ?case
    by (cases "splitAtFirst pat v") auto
qed

lemma replaceFirst_at:
  "noStart pat u \<Longrightarrow> replaceFirst pat rep (u @ pat @ v) = u @ getSubstitution pat u v rep @ v"
  by (simp add: replaceFirst_def splitAtFirst_skip splitAtFirst_here)

lemma getSubstitution_plain: "CHR ''$'' \<notin> set rep \<Longrightarrow> getSubstitution m b a rep = rep"
  by (induction m b a rep rule: getSubstitution.induct) auto

lemma occursIn_iff: "occursIn pat s \<longleftrightarrow> (\<exists>u v. s = u @ pat @ v)"
proof
  assume "occursIn pat s"
  then obtain u v where "splitAtFirst pat s = Some (u, v)"
    by (auto simp: occursIn_def)
  then show "\<exists>u v. s = u @ pat @ v" using splitAtFirst_Some by blast
next
  assume "\<exists>u v. s = u @ pat @ v"
  then obtain u v where s: "s = u @ pat @ v" by blast
  have "splitAtFirst pat (u @ pat @ v) \<noteq> None"
  proof (induction u)
    case Nil
    show ?case by (simp add: splitAtFirst_here)
  next
    case (Cons c u)
    then show ?case by auto
  qed
  with s show "occursIn pat s" by (simp add: occursIn_def)
qed

lemma joinStrings_append:
  "xs \<noteq> [] \<Longrightarrow> ys \<noteq> [] \<Longrightarrow>
     joinStrings sep (xs @ ys) = joinStrings sep xs @ sep @ joinStrings sep ys"
proof (induction sep xs rule: joinStrings.induct)
  case (1 sep)
  then show ?case by simp
next
  case (2 sep x)
  then show ?case by (cases ys) auto
next
  case (3 sep x y ys)
  then show ?case by simp
qed

lemma joinStrings_Cons:
  "ys \<noteq> [] \<Longrightarrow> joinStrings sep (x # ys) = x @ sep @ joinStrings sep ys"
  by (cases ys) auto

lemma set_joinStrings: "set (joinStrings sep xs) \<subseteq> set sep \<union> \<Union> (set ` set xs)"
  by (induction sep xs rule: joinStrings.induct) auto


subsection \<open>The template between its placeholders\<close>

abbreviation nl :: string where
  "nl \<equiv> [CHR 0x0A]"

definition SEG0 :: string where
  "SEG0 = joinStrings nl (take 28 TEMPLATE_LINES) @ nl @ ''from_clause: '' @ dq @ '' FROM ''"

definition SEG1 :: string where
  "SEG1 = dq @ nl @ joinStrings nl (take 48 (drop 29 TEMPLATE_LINES)) @ nl @ ''string_col: ''"

definition SEG2 :: string where
  "SEG2 = nl @ ''numeric_col: ''"

definition SEG3 :: string where
  "SEG3 = nl @ ''column_ref: ''"

definition SEG4 :: string where
  "SEG4 = nl @ nl @ ''event_type: ''"

definition SEG5 :: string where
  "SEG5 = nl @ ''action_value: ''"

definition SEG6 :: string where
  "SEG6 = nl @ joinStrings nl (drop 83 TEMPLATE_LINES)"

lemma template_lines_split:
  "TEMPLATE_LINES =
     take 28 TEMPLATE_LINES @
     [''from_clause: '' @ dq @ '' FROM {{TABLE_NAME}}'' @ dq] @
     take 48 (drop 29 TEMPLATE_LINES) @
     [''string_col: {{STRING_COLS}}'', ''numeric_col: {{NUMERIC_COLS}}'',
      ''column_ref: {{COLUMN_REF}}'', [], ''event_type: {{EVENT_TYPES}}'',
      ''action_value: {{ACTION_VALUES}}''] @
     drop 83 TEMPLATE_LINES"
proof -
  have len: "length TEMPLATE_LINES = 93"
    by (simp add: TEMPLATE_LINES_def)
  have l28: "TEMPLATE_LINES ! 28 = ''from_clause: '' @ dq @ '' FROM {{TABLE_NAME}}'' @ dq"
    by (simp add: TEMPLATE_LINES_def)
  have l77: "take 6 (drop 77 TEMPLATE_LINES) =
     [''string_col: {{STRING_COLS}}'', ''numeric_col: {{NUMERIC_COLS}}'',
      ''column_ref: {{COLUMN_REF}}'', [], ''event_type: {{EVENT_TYPES}}'',
      ''action_value: {{ACTION_VALUES}}'']"
    by (simp add: TEMPLATE_LINES_def)
  have a: "TEMPLATE_LINES = take 28 TEMPLATE_LINES @ drop 28 TEMPLATE_LINES" by simp
  have b: "drop 28 TEMPLATE_LINES = TEMPLATE_LINES ! 28 # drop 29 TEMPLATE_LINES"
    using Cons_nth_drop_Suc [of 28 TEMPLATE_LINES] len by simp
  have c: "drop 29 TEMPLATE_LINES = take 48 (drop 29 TEMPLATE_LINES) @ drop 77 TEMPLATE_LINES"
    using append_take_drop_id [of 48 "drop 29 TEMPLATE_LINES"] by simp
  have d: "drop 77 TEMPLATE_LINES = take 6 (drop 77 TEMPLATE_LINES) @ drop 83 TEMPLATE_LINES"
    using append_take_drop_id [of 6 "drop 77 TEMPLATE_LINES"] by simp
  show ?thesis
    by (subst a, subst b, subst c, subst d, subst l28, subst l77) simp
qed

lemma template_segments:
  "GRAMMAR_TEMPLATE =
     SEG0 @ ''{{TABLE_NAME}}'' @ SEG1 @ ''{{STRING_COLS}}'' @ SEG2 @ ''{{NUMERIC_COLS}}'' @ SEG3 @
     ''{{COLUMN_REF}}'' @ SEG4 @ ''{{EVENT_TYPES}}'' @ SEG5 @ ''{{ACTION_VALUES}}'' @ SEG6"
proof -
  have len: "length TEMPLATE_LINES = 93"
    by (simp add: TEMPLATE_LINES_def)
  define A where "A = take 28 TEMPLATE_LINES"
  define B where "B = take 48 (drop 29 TEMPLATE_LINES)"
  define C where "C = drop 83 TEMPLATE_LINES"
  have ne: "A \<noteq> []" "B \<noteq> []" "C \<noteq> []"
    using len by (auto simp: A_def B_def C_def)
  have "GRAMMAR_TEMPLATE = joinStrings nl
     (A @ [''from_clause: '' @ dq @ '' FROM {{TABLE_NAME}}'' @ dq] @ B @
      [''string_col: {{STRING_COLS}}'', ''numeric_col: {{NUMERIC_COLS}}'',
       ''column_ref: {{COLUMN_REF}}'', [], ''event_type: {{EVENT_TYPES}}'',
       ''action_value: {{ACTION_VALUES}}''] @ C)"
    unfolding GRAMMAR_TEMPLATE_def A_def B_def C_def
    by (subst template_lines_split) (rule refl)
  also have "\<dots> = joinStrings nl A @ nl @ (''from_clause: '' @ dq @ '' FROM {{TABLE_NAME}}'' @ dq) @ nl @
      joinStrings nl B @ nl @ ''string_col: {{STRING_COLS}}'' @ nl @ ''numeric_col: {{NUMERIC_COLS}}'' @ nl @
      ''column_ref: {{COLUMN_REF}}'' @ nl @ [] @ nl @ ''event_type: {{EVENT_TYPES}}'' @ nl @
      ''action_value: {{ACTION_VALUES}}'' @ nl @ joinStrings nl C"
    using ne by (simp add: joinStrings_append joinStrings_Cons)
  finally show ?thesis
    by (simp add: SEG0_def SEG1_def SEG2_def SEG3_def SEG4_def SEG5_def SEG6_def A_def B_def C_def)
qed

lemma no_brace_joined:
  assumes "\<forall>l \<in> set ls. CHR ''{'' \<notin> set l"
  shows "CHR ''{'' \<notin> set (joinStrings nl ls)"
proof
  assume "CHR ''{'' \<in> set (joinStrings nl ls)"
  with set_joinStrings [of nl ls] have "CHR ''{'' \<in> set nl \<union> \<Union> (set ` set ls)" by blast
  with assms show False by auto
qed

lemma SEG0_no_brace: "CHR ''{'' \<notin> set SEG0"
proof -
  have "\<forall>l \<in> set (take 28 TEMPLATE_LINES). CHR ''{'' \<notin> set l"
    by (simp add: TEMPLATE_LINES_def hbar_def)
  from no_brace_joined [OF this] show ?thesis by (simp add: SEG0_def)
qed

lemma SEG1_no_brace: "CHR ''{'' \<notin> set SEG1"
proof -
  have "\<forall>l \<in> set (take 48 (drop 29 TEMPLATE_LINES)). CHR ''{'' \<notin> set l"
    by (simp add: TEMPLATE_LINES_def hbar_def)
  from no_brace_joined [OF this] show ?thesis by (simp add: SEG1_def)
qed

lemma SEG2345_no_brace:
  "CHR ''{'' \<notin> set SEG2" "CHR ''{'' \<notin> set SEG3" "CHR ''{'' \<notin> set SEG4" "CHR ''{'' \<notin> set SEG5"
  by (simp_all add: SEG2_def SEG3_def SEG4_def SEG5_def)

lemma SEG6_no_placeholder: "\<not> occursIn ''{{'' SEG6"
  by (simp add: occursIn_def SEG6_def TEMPLATE_LINES_def hbar_def eval_nat_numeral)

subsection \<open>Plain names\<close>

text \<open>A text without a dollar sign and without an opening brace.\<close>

definition plainText :: "string \<Rightarrow> bool" where
  "plainText s = (CHR ''$'' \<notin> set s \<and> CHR ''{'' \<notin> set s)"

definition plainColumn :: "ColumnInfo \<Rightarrow> bool" where
  "plainColumn col =
     (plainText (name col) \<and>
      (case enumValues col of Some vs \<Rightarrow> list_all plainText vs | None \<Rightarrow> True))"

definition plainSchema :: "TableSchema \<Rightarrow> bool" where
  "plainSchema schema = (plainText (tableName schema) \<and> list_all plainColumn (columns schema))"

text \<open>The alternatives that \<open>buildGrammar\<close> injects for the four schema-derived rules.\<close>

definition stringAlternatives :: "TableSchema \<Rightarrow> string list" where
  "stringAlternatives schema =
     (let c = classifyColumns schema in
      if length (stringCols c) > 0 then stringCols c else [''actor_login''])"

definition numericAlternatives :: "TableSchema \<Rightarrow> string list" where
  "numericAlternatives schema =
     (let c = classifyColumns schema in
      if length (numericCols c) > 0 then numericCols c else [''id''])"

definition columnRefAlternatives :: "TableSchema \<Rightarrow> string list" where
  "columnRefAlternatives schema =
     (let c = classifyColumns schema;
          u = uniqueInOrder (filter (\<lambda>x. x \<in> set (allCols c))
                (stringCols c @ numericCols c @ dateTimeCols c @ map fst (enumCols c)))
      in if length u > 0 then u else [''id''])"

definition eventTypeAlternatives :: "TableSchema \<Rightarrow> string list" where
  "eventTypeAlternatives schema =
     (case find (\<lambda>e. fst e = ''type'') (enumCols (classifyColumns schema)) of
        Some e \<Rightarrow> snd e
      | None \<Rightarrow> KNOWN_EVENT_TYPES)"

lemma buildGrammar_unfold:
  "buildGrammar schema =
     replaceFirst ''{{ACTION_VALUES}}'' (toLarkAlternatives KNOWN_ACTION_VALUES)
      (replaceFirst ''{{EVENT_TYPES}}'' (toLarkAlternatives (eventTypeAlternatives schema))
        (replaceFirst ''{{COLUMN_REF}}'' (toLarkAlternatives (columnRefAlternatives schema))
          (replaceFirst ''{{NUMERIC_COLS}}'' (toLarkAlternatives (numericAlternatives schema))
            (replaceFirst ''{{STRING_COLS}}'' (toLarkAlternatives (stringAlternatives schema))
              (replaceFirst ''{{TABLE_NAME}}'' (tableName schema) GRAMMAR_TEMPLATE)))))"
  by (simp add: buildGrammar_def Let_def stringAlternatives_def numericAlternatives_def
      columnRefAlternatives_def eventTypeAlternatives_def toLarkAlternatives_def)

text \<open>What the classification collects is taken from the columns.\<close>

definition plainClassified :: "Classified \<Rightarrow> bool" where
  "plainClassified c =
     (list_all plainText (stringCols c) \<and> list_all plainText (numericCols c) \<and>
      list_all plainText (dateTimeCols c) \<and>
      list_all (\<lambda>e. plainText (fst e) \<and> snd e \<noteq> [] \<and> list_all plainText (snd e)) (enumCols c))"

lemma classifyColumn_plain:
  "plainClassified acc \<Longrightarrow> plainColumn col \<Longrightarrow> plainClassified (classifyColumn acc col)"
  by (auto simp: plainClassified_def plainColumn_def classifyColumn_def classifyByType_def Let_def
      split: option.splits)

lemma foldl_classify_plain:
  "plainClassified acc \<Longrightarrow> list_all plainColumn cs \<Longrightarrow>
     plainClassified (foldl classifyColumn acc cs)"
  by (induction cs arbitrary: acc) (auto simp: classifyColumn_plain)

lemma classifyColumns_plain:
  "plainSchema schema \<Longrightarrow> plainClassified (classifyColumns schema)"
  unfolding classifyColumns_def plainSchema_def
  by (rule foldl_classify_plain) (auto simp: plainClassified_def)

lemma toLarkAlternatives_chars:
  assumes "c \<in> set (toLarkAlternatives vs)"
  shows "c \<in> set '' | '' \<or> c = CHR 0x22 \<or> (\<exists>v \<in> set vs. c \<in> set v)"
proof -
  from assms set_joinStrings [of "'' | ''" "map (\<lambda>v. dq @ v @ dq) vs"]
  have "c \<in> set '' | '' \<union> \<Union> (set ` set (map (\<lambda>v. dq @ v @ dq) vs))"
    unfolding toLarkAlternatives_def by blast
  then show ?thesis by (auto split: if_splits)
qed

lemma toLarkAlternatives_plain:
  assumes "list_all plainText vs"
  shows "plainText (toLarkAlternatives vs)"
  using assms toLarkAlternatives_chars [of "CHR ''$''" vs] toLarkAlternatives_chars [of "CHR ''{''" vs]
  by (auto simp: plainText_def list_all_iff)

lemma stringAlternatives_plain:
  "plainSchema schema \<Longrightarrow> list_all plainText (stringAlternatives schema)"
  using classifyColumns_plain [of schema]
  by (auto simp: stringAlternatives_def Let_def plainClassified_def plainText_def)

lemma numericAlternatives_plain:
  "plainSchema schema \<Longrightarrow> list_all plainText (numericAlternatives schema)"
  using classifyColumns_plain [of schema]
  by (auto simp: numericAlternatives_def Let_def plainClassified_def plainText_def)

lemma columnRefAlternatives_plain:
  "plainSchema schema \<Longrightarrow> list_all plainText (columnRefAlternatives schema)"
  using classifyColumns_plain [of schema]
  by (auto simp: columnRefAlternatives_def Let_def plainClassified_def plainText_def
      uniqueInOrder_def list_all_iff)

lemma KNOWN_EVENT_TYPES_plain: "list_all plainText KNOWN_EVENT_TYPES"
  by (simp add: KNOWN_EVENT_TYPES_def plainText_def)

lemma KNOWN_ACTION_VALUES_plain: "list_all plainText KNOWN_ACTION_VALUES"
  by (simp add: KNOWN_ACTION_VALUES_def plainText_def)

lemma eventTypeAlternatives_plain:
  assumes "plainSchema schema"
  shows "list_all plainText (eventTypeAlternatives schema) \<and> eventTypeAlternatives schema \<noteq> []"
proof (cases "find (\<lambda>e. fst e = ''type'') (enumCols (classifyColumns schema))")
  case None
  then show ?thesis
    using KNOWN_EVENT_TYPES_plain
    by (auto simp: eventTypeAlternatives_def KNOWN_EVENT_TYPES_def)
next
  case (Some e)
  then have "e \<in> set (enumCols (classifyColumns schema))"
    by (auto simp: find_Some_iff)
  with classifyColumns_plain [OF assms] have "snd e \<noteq> [] \<and> list_all plainText (snd e)"
    by (auto simp: plainClassified_def list_all_iff)
  with Some show ?thesis by (simp add: eventTypeAlternatives_def)
qed

subsection \<open>The six replacements\<close>

lemma replaceFirst_plain:
  assumes "CHR ''{'' \<notin> set u" and "CHR ''$'' \<notin> set r"
  shows "replaceFirst (CHR ''{'' # p) r (u @ (CHR ''{'' # p) @ v) = u @ r @ v"
  using replaceFirst_at [OF noStart_head [OF assms(1)]] getSubstitution_plain [OF assms(2)]
  by simp

lemma first_four:
  assumes "plainText r1" and "plainText r2" and "plainText r3" and "plainText r4"
  shows "replaceFirst ''{{COLUMN_REF}}'' r4
          (replaceFirst ''{{NUMERIC_COLS}}'' r3
            (replaceFirst ''{{STRING_COLS}}'' r2
              (replaceFirst ''{{TABLE_NAME}}'' r1 GRAMMAR_TEMPLATE))) =
         (SEG0 @ r1 @ SEG1 @ r2 @ SEG2 @ r3 @ SEG3 @ r4 @ SEG4) @ ''{{EVENT_TYPES}}'' @ SEG5 @
           ''{{ACTION_VALUES}}'' @ SEG6"
proof -
  let ?rest1 = "SEG1 @ ''{{STRING_COLS}}'' @ SEG2 @ ''{{NUMERIC_COLS}}'' @ SEG3 @
     ''{{COLUMN_REF}}'' @ SEG4 @ ''{{EVENT_TYPES}}'' @ SEG5 @ ''{{ACTION_VALUES}}'' @ SEG6"
  let ?rest2 = "SEG2 @ ''{{NUMERIC_COLS}}'' @ SEG3 @
     ''{{COLUMN_REF}}'' @ SEG4 @ ''{{EVENT_TYPES}}'' @ SEG5 @ ''{{ACTION_VALUES}}'' @ SEG6"
  let ?rest3 = "SEG3 @ ''{{COLUMN_REF}}'' @ SEG4 @ ''{{EVENT_TYPES}}'' @ SEG5 @
     ''{{ACTION_VALUES}}'' @ SEG6"
  let ?rest4 = "SEG4 @ ''{{EVENT_TYPES}}'' @ SEG5 @ ''{{ACTION_VALUES}}'' @ SEG6"
  note nb = SEG0_no_brace SEG1_no_brace SEG2345_no_brace
  have g1: "replaceFirst ''{{TABLE_NAME}}'' r1 GRAMMAR_TEMPLATE = SEG0 @ r1 @ ?rest1"
    using replaceFirst_plain [of SEG0 r1 "''{TABLE_NAME}}''" ?rest1] assms nb
    by (simp add: template_segments plainText_def)
  have g2: "replaceFirst ''{{STRING_COLS}}'' r2 (SEG0 @ r1 @ ?rest1) =
      SEG0 @ r1 @ SEG1 @ r2 @ ?rest2"
    using replaceFirst_plain [of "SEG0 @ r1 @ SEG1" r2 "''{STRING_COLS}}''" ?rest2] assms nb
    by (simp add: plainText_def)
  have g3: "replaceFirst ''{{NUMERIC_COLS}}'' r3 (SEG0 @ r1 @ SEG1 @ r2 @ ?rest2) =
      SEG0 @ r1 @ SEG1 @ r2 @ SEG2 @ r3 @ ?rest3"
    using replaceFirst_plain [of "SEG0 @ r1 @ SEG1 @ r2 @ SEG2" r3 "''{NUMERIC_COLS}}''" ?rest3]
      assms nb
    by (simp add: plainText_def)
  have g4: "replaceFirst ''{{COLUMN_REF}}'' r4 (SEG0 @ r1 @ SEG1 @ r2 @ SEG2 @ r3 @ ?rest3) =
      SEG0 @ r1 @ SEG1 @ r2 @ SEG2 @ r3 @ SEG3 @ r4 @ ?rest4"
    using replaceFirst_plain
      [of "SEG0 @ r1 @ SEG1 @ r2 @ SEG2 @ r3 @ SEG3" r4 "''{COLUMN_REF}}''" ?rest4] assms nb
    by (simp add: plainText_def)
  show ?thesis unfolding g1 g2 g3 g4 by simp
qed

lemma first_four_no_brace:
  assumes "plainText r1" and "plainText r2" and "plainText r3" and "plainText r4"
  shows "CHR ''{'' \<notin> set (SEG0 @ r1 @ SEG1 @ r2 @ SEG2 @ r3 @ SEG3 @ r4 @ SEG4)"
  using assms SEG0_no_brace SEG1_no_brace SEG2345_no_brace by (simp add: plainText_def)

lemma all_six:
  assumes "plainText r1" and "plainText r2" and "plainText r3" and "plainText r4"
    and "plainText r5" and "plainText r6"
  shows "replaceFirst ''{{ACTION_VALUES}}'' r6
          (replaceFirst ''{{EVENT_TYPES}}'' r5
            (replaceFirst ''{{COLUMN_REF}}'' r4
              (replaceFirst ''{{NUMERIC_COLS}}'' r3
                (replaceFirst ''{{STRING_COLS}}'' r2
                  (replaceFirst ''{{TABLE_NAME}}'' r1 GRAMMAR_TEMPLATE))))) =
         SEG0 @ r1 @ SEG1 @ r2 @ SEG2 @ r3 @ SEG3 @ r4 @ SEG4 @ r5 @ SEG5 @ r6 @ SEG6"
proof -
  let ?u4 = "SEG0 @ r1 @ SEG1 @ r2 @ SEG2 @ r3 @ SEG3 @ r4 @ SEG4"
  note nb4 = first_four_no_brace [OF assms(1-4)]
  have g5: "replaceFirst ''{{EVENT_TYPES}}'' r5
      (?u4 @ ''{{EVENT_TYPES}}'' @ SEG5 @ ''{{ACTION_VALUES}}'' @ SEG6) =
      ?u4 @ r5 @ SEG5 @ ''{{ACTION_VALUES}}'' @ SEG6"
    using replaceFirst_plain [OF nb4, of r5 "''{EVENT_TYPES}}''" "SEG5 @ ''{{ACTION_VALUES}}'' @ SEG6"]
      assms(5)
    by (simp add: plainText_def)
  have nb5: "CHR ''{'' \<notin> set (?u4 @ r5 @ SEG5)"
    using nb4 assms(5) SEG2345_no_brace by (simp add: plainText_def)
  have g6: "replaceFirst ''{{ACTION_VALUES}}'' r6
      ((?u4 @ r5 @ SEG5) @ ''{{ACTION_VALUES}}'' @ SEG6) = (?u4 @ r5 @ SEG5) @ r6 @ SEG6"
    using replaceFirst_plain [OF nb5, of r6 "''{ACTION_VALUES}}''" SEG6] assms(6)
    by (simp add: plainText_def)
  show ?thesis
    unfolding first_four [OF assms(1-4)] g5 using g6 by simp
qed


lemma occursIn_longer: "occursIn (p @ q) s \<Longrightarrow> occursIn p s"
proof -
  assume "occursIn (p @ q) s"
  then obtain u v where "s = u @ (p @ q) @ v" unfolding occursIn_iff by blast
  then have "s = u @ p @ (q @ v)" by simp
  then show "occursIn p s" unfolding occursIn_iff by blast
qed

lemma no_placeholder_after:
  assumes "CHR ''{'' \<notin> set u"
  shows "\<not> occursIn ''{{'' (u @ SEG6)"
proof -
  have "splitAtFirst ''{{'' (u @ SEG6) = map_option (\<lambda>(p, q). (u @ p, q)) (splitAtFirst ''{{'' SEG6)"
    by (rule splitAtFirst_skip [OF noStart_head [OF assms]])
  with SEG6_no_placeholder show ?thesis by (simp add: occursIn_def)
qed

subsection \<open>Placeholders and alternations of the built grammar\<close>

text \<open>
  A schema without a numeric column, a schema whose event type holds \<open>$&\<close>, and a
  schema whose table is named like a placeholder.
\<close>

definition ZERO_NUMERIC :: TableSchema where
  "ZERO_NUMERIC =
     \<lparr>tableName = ''github_events'',
      columns = [\<lparr>name = ''title'', type = ''String'', enumValues = None\<rparr>]\<rparr>"

definition DOLLAR_ENUM :: TableSchema where
  "DOLLAR_ENUM =
     \<lparr>tableName = ''github_events'',
      columns = [\<lparr>name = ''type'', type = ''Enum8'', enumValues = Some [''$&'']\<rparr>]\<rparr>"

definition BRACE_TABLE :: TableSchema where
  "BRACE_TABLE =
     \<lparr>tableName = ''{{STRING_COLS}}'',
      columns = [\<lparr>name = ''title'', type = ''String'', enumValues = None\<rparr>]\<rparr>"

text \<open>
  Where the builder keeps its promise: for every schema whose table name, column names
  and enum values hold no dollar sign and no opening brace, \<open>buildGrammar\<close> returns the
  template with its six placeholders replaced: the table name, and for each of the five
  injected rules an alternation of double-quoted literals of at least one alternative.
  No \<open>{{\<close> is left, so none of the six placeholder tokens is; and with no numeric column
  the grammar has the line \<open>numeric_col: "id"\<close>.
\<close>

theorem buildGrammar_complete:
  assumes "plainSchema schema"
  shows "buildGrammar schema =
      SEG0 @ tableName schema @
      SEG1 @ toLarkAlternatives (stringAlternatives schema) @
      SEG2 @ toLarkAlternatives (numericAlternatives schema) @
      SEG3 @ toLarkAlternatives (columnRefAlternatives schema) @
      SEG4 @ toLarkAlternatives (eventTypeAlternatives schema) @
      SEG5 @ toLarkAlternatives KNOWN_ACTION_VALUES @ SEG6 \<and>
    stringAlternatives schema \<noteq> [] \<and> numericAlternatives schema \<noteq> [] \<and>
    columnRefAlternatives schema \<noteq> [] \<and> eventTypeAlternatives schema \<noteq> [] \<and>
    KNOWN_ACTION_VALUES \<noteq> [] \<and>
    (numericCols (classifyColumns schema) = [] \<longrightarrow>
       occursIn (''numeric_col: '' @ dq @ ''id'' @ dq @ nl) (buildGrammar schema)) \<and>
    \<not> occursIn ''{{'' (buildGrammar schema) \<and>
    (\<forall>p \<in> set TEMPLATE_PLACEHOLDERS. \<not> occursIn p (buildGrammar schema))"
proof -
  let ?r1 = "tableName schema"
  let ?r2 = "toLarkAlternatives (stringAlternatives schema)"
  let ?r3 = "toLarkAlternatives (numericAlternatives schema)"
  let ?r4 = "toLarkAlternatives (columnRefAlternatives schema)"
  let ?r5 = "toLarkAlternatives (eventTypeAlternatives schema)"
  let ?r6 = "toLarkAlternatives KNOWN_ACTION_VALUES"
  have p1: "plainText ?r1" using assms by (simp add: plainSchema_def)
  have p2: "plainText ?r2"
    by (rule toLarkAlternatives_plain [OF stringAlternatives_plain [OF assms]])
  have p3: "plainText ?r3"
    by (rule toLarkAlternatives_plain [OF numericAlternatives_plain [OF assms]])
  have p4: "plainText ?r4"
    by (rule toLarkAlternatives_plain [OF columnRefAlternatives_plain [OF assms]])
  have p5: "plainText ?r5"
    using eventTypeAlternatives_plain [OF assms] by (simp add: toLarkAlternatives_plain)
  have p6: "plainText ?r6"
    by (rule toLarkAlternatives_plain [OF KNOWN_ACTION_VALUES_plain])
  have shape: "buildGrammar schema =
      SEG0 @ ?r1 @ SEG1 @ ?r2 @ SEG2 @ ?r3 @ SEG3 @ ?r4 @ SEG4 @ ?r5 @ SEG5 @ ?r6 @ SEG6"
    unfolding buildGrammar_unfold by (rule all_six [OF p1 p2 p3 p4 p5 p6])
  have ne: "stringAlternatives schema \<noteq> []" "numericAlternatives schema \<noteq> []"
    "columnRefAlternatives schema \<noteq> []" "eventTypeAlternatives schema \<noteq> []"
    "KNOWN_ACTION_VALUES \<noteq> []"
    using eventTypeAlternatives_plain [OF assms]
    by (auto simp: stringAlternatives_def numericAlternatives_def columnRefAlternatives_def
        Let_def KNOWN_ACTION_VALUES_def)
  have fallback: "occursIn (''numeric_col: '' @ dq @ ''id'' @ dq @ nl) (buildGrammar schema)"
    if z: "numericCols (classifyColumns schema) = []"
  proof -
    from z have "?r3 = dq @ ''id'' @ dq"
      by (simp add: numericAlternatives_def toLarkAlternatives_def)
    then have "buildGrammar schema =
        (SEG0 @ ?r1 @ SEG1 @ ?r2 @ nl) @ (''numeric_col: '' @ dq @ ''id'' @ dq @ nl) @
        (''column_ref: '' @ ?r4 @ SEG4 @ ?r5 @ SEG5 @ ?r6 @ SEG6)"
      unfolding shape by (simp add: SEG2_def SEG3_def)
    then show ?thesis unfolding occursIn_iff by blast
  qed
  have "CHR ''{'' \<notin> set (SEG0 @ ?r1 @ SEG1 @ ?r2 @ SEG2 @ ?r3 @ SEG3 @ ?r4 @ SEG4 @ ?r5 @ SEG5 @ ?r6)"
    using p1 p2 p3 p4 p5 p6 SEG0_no_brace SEG1_no_brace SEG2345_no_brace
    by (simp add: plainText_def)
  from no_placeholder_after [OF this]
  have none: "\<not> occursIn ''{{'' (buildGrammar schema)"
    unfolding shape by simp
  have each: "\<not> occursIn p (buildGrammar schema)" if "p \<in> set TEMPLATE_PLACEHOLDERS" for p
  proof -
    from that obtain q where "p = ''{{'' @ q"
      by (auto simp: TEMPLATE_PLACEHOLDERS_def)
    with none occursIn_longer [of "''{{''" q "buildGrammar schema"] show ?thesis by blast
  qed
  from shape ne fallback none each show ?thesis by blast
qed

theorem buildGrammar_complete_witness:
  "plainSchema ZERO_NUMERIC \<and> numericCols (classifyColumns ZERO_NUMERIC) = [] \<and>
   occursIn (''numeric_col: '' @ dq @ ''id'' @ dq @ nl) (buildGrammar ZERO_NUMERIC) \<and>
   ''{{NUMERIC_COLS}}'' \<in> set TEMPLATE_PLACEHOLDERS \<and>
   \<not> occursIn ''{{NUMERIC_COLS}}'' (buildGrammar ZERO_NUMERIC)"
proof -
  have a: "plainSchema ZERO_NUMERIC"
    by (simp add: ZERO_NUMERIC_def plainSchema_def plainColumn_def plainText_def)
  have b: "numericCols (classifyColumns ZERO_NUMERIC) = []"
    by (simp add: ZERO_NUMERIC_def classifyColumns_def classifyColumn_def classifyByType_def
        isDateTimeType_def isStringType_def)
  have c: "''{{NUMERIC_COLS}}'' \<in> set TEMPLATE_PLACEHOLDERS"
    by (simp add: TEMPLATE_PLACEHOLDERS_def)
  from buildGrammar_complete [OF a] a b c show ?thesis by blast
qed

text \<open>
  \<open>replace\<close> reads \<open>$&\<close> in the replacement as the matched text: an enum value \<open>$&\<close>
  of the column \<open>type\<close> puts the placeholder \<open>{{EVENT_TYPES}}\<close> back into the grammar.
\<close>

lemma dollar_enum_placeholder:
  "tableName DOLLAR_ENUM \<noteq> [] \<and> columns DOLLAR_ENUM \<noteq> [] \<and>
   ''{{EVENT_TYPES}}'' \<in> set TEMPLATE_PLACEHOLDERS \<and>
   occursIn ''{{EVENT_TYPES}}'' (buildGrammar DOLLAR_ENUM) \<and>
   occursIn (''event_type: '' @ dq @ ''{{EVENT_TYPES}}'' @ dq @ nl) (buildGrammar DOLLAR_ENUM)"
proof -
  have c: "classifyColumns DOLLAR_ENUM =
      \<lparr>stringCols = [], numericCols = [], dateTimeCols = [], enumCols = [(''type'', [''$&''])],
       allCols = [''type'']\<rparr>"
    by (simp add: DOLLAR_ENUM_def classifyColumns_def classifyColumn_def)
  have alts: "stringAlternatives DOLLAR_ENUM = [''actor_login'']"
    "numericAlternatives DOLLAR_ENUM = [''id'']"
    "columnRefAlternatives DOLLAR_ENUM = [''type'']"
    "eventTypeAlternatives DOLLAR_ENUM = [''$&'']"
    by (simp_all add: stringAlternatives_def numericAlternatives_def columnRefAlternatives_def
        eventTypeAlternatives_def c uniqueInOrder_def)
  let ?r1 = "''github_events''"
  let ?r2 = "toLarkAlternatives [''actor_login'']"
  let ?r3 = "toLarkAlternatives [''id'']"
  let ?r4 = "toLarkAlternatives [''type'']"
  let ?r6 = "toLarkAlternatives KNOWN_ACTION_VALUES"
  let ?u4 = "SEG0 @ ?r1 @ SEG1 @ ?r2 @ SEG2 @ ?r3 @ SEG3 @ ?r4 @ SEG4"
  have p: "plainText ?r1" "plainText ?r2" "plainText ?r3" "plainText ?r4"
    by (simp_all add: plainText_def toLarkAlternatives_def)
  have tn: "tableName DOLLAR_ENUM = ?r1" by (simp add: DOLLAR_ENUM_def)
  note nb4 = first_four_no_brace [OF p]
  have g5: "replaceFirst ''{{EVENT_TYPES}}'' (toLarkAlternatives [''$&''])
      (?u4 @ ''{{EVENT_TYPES}}'' @ SEG5 @ ''{{ACTION_VALUES}}'' @ SEG6) =
      ?u4 @ (dq @ ''{{EVENT_TYPES}}'' @ dq) @ SEG5 @ ''{{ACTION_VALUES}}'' @ SEG6"
    using replaceFirst_at [OF noStart_head [OF nb4],
        of "''{EVENT_TYPES}}''" "toLarkAlternatives [''$&'']" "SEG5 @ ''{{ACTION_VALUES}}'' @ SEG6"]
    by (simp add: toLarkAlternatives_def)
  have n1: "noStart ''{{ACTION_VALUES}}'' ?u4" by (rule noStart_head [OF nb4])
  have n2: "noStart ''{{ACTION_VALUES}}'' (dq @ ''{{EVENT_TYPES}}'' @ dq)" by simp
  have n3: "noStart ''{{ACTION_VALUES}}'' SEG5"
    by (rule noStart_head) (rule SEG2345_no_brace)
  have ns: "noStart ''{{ACTION_VALUES}}'' (?u4 @ (dq @ ''{{EVENT_TYPES}}'' @ dq) @ SEG5)"
    by (rule noStart_append [OF n1 noStart_append [OF n2 n3]])
  have g6: "replaceFirst ''{{ACTION_VALUES}}'' ?r6
      ((?u4 @ (dq @ ''{{EVENT_TYPES}}'' @ dq) @ SEG5) @ ''{{ACTION_VALUES}}'' @ SEG6) =
      (?u4 @ (dq @ ''{{EVENT_TYPES}}'' @ dq) @ SEG5) @ ?r6 @ SEG6"
    using replaceFirst_at [OF ns, of ?r6 SEG6]
      getSubstitution_plain [OF conjunct1 [OF toLarkAlternatives_plain [OF KNOWN_ACTION_VALUES_plain,
        unfolded plainText_def]]]
    by simp
  have shape: "buildGrammar DOLLAR_ENUM =
      (?u4 @ (dq @ ''{{EVENT_TYPES}}'' @ dq) @ SEG5) @ ?r6 @ SEG6"
    unfolding buildGrammar_unfold alts tn first_four [OF p] g5 using g6 by simp
  have o1: "occursIn (''event_type: '' @ dq @ ''{{EVENT_TYPES}}'' @ dq @ nl) (buildGrammar DOLLAR_ENUM)"
  proof -
    have "buildGrammar DOLLAR_ENUM =
        (SEG0 @ ?r1 @ SEG1 @ ?r2 @ SEG2 @ ?r3 @ SEG3 @ ?r4 @ nl @ nl) @
        (''event_type: '' @ dq @ ''{{EVENT_TYPES}}'' @ dq @ nl) @
        (''action_value: '' @ ?r6 @ SEG6)"
      unfolding shape by (simp add: SEG4_def SEG5_def)
    then show ?thesis unfolding occursIn_iff by blast
  qed
  have o2: "occursIn ''{{EVENT_TYPES}}'' (buildGrammar DOLLAR_ENUM)"
  proof -
    have "buildGrammar DOLLAR_ENUM =
        (?u4 @ dq) @ ''{{EVENT_TYPES}}'' @ (dq @ SEG5 @ ?r6 @ SEG6)"
      unfolding shape by simp
    then show ?thesis unfolding occursIn_iff by blast
  qed
  from o1 o2 show ?thesis
    by (simp add: DOLLAR_ENUM_def TEMPLATE_PLACEHOLDERS_def)
qed


text \<open>
  \<open>replace\<close> replaces the first occurrence only: a table named \<open>{{STRING_COLS}}\<close>
  takes the alternatives meant for the rule \<open>string_col\<close>, and the placeholder of that
  rule stays.
\<close>

lemma replaceFirst_past:
  assumes "CHR ''{'' \<notin> set a" and "noStart (CHR ''{'' # p) m" and "CHR ''{'' \<notin> set b"
    and "CHR ''$'' \<notin> set r"
  shows "replaceFirst (CHR ''{'' # p) r ((a @ m @ b) @ (CHR ''{'' # p) @ v) = (a @ m @ b) @ r @ v"
proof -
  have "noStart (CHR ''{'' # p) (a @ m @ b)"
    by (rule noStart_append [OF noStart_head [OF assms(1)]
          noStart_append [OF assms(2) noStart_head [OF assms(3)]]])
  from replaceFirst_at [OF this] getSubstitution_plain [OF assms(4)] show ?thesis by simp
qed

lemma brace_table_shape:
  "buildGrammar BRACE_TABLE =
     SEG0 @ toLarkAlternatives [''title''] @ SEG1 @ ''{{STRING_COLS}}'' @ SEG2 @
     toLarkAlternatives [''id''] @ SEG3 @ toLarkAlternatives [''title''] @ SEG4 @
     toLarkAlternatives KNOWN_EVENT_TYPES @ SEG5 @ toLarkAlternatives KNOWN_ACTION_VALUES @ SEG6"
proof -
  have c: "classifyColumns BRACE_TABLE =
      \<lparr>stringCols = [''title''], numericCols = [], dateTimeCols = [], enumCols = [],
       allCols = [''title'']\<rparr>"
    by (simp add: BRACE_TABLE_def classifyColumns_def classifyColumn_def classifyByType_def
        isDateTimeType_def isStringType_def)
  have alts: "stringAlternatives BRACE_TABLE = [''title'']"
    "numericAlternatives BRACE_TABLE = [''id'']"
    "columnRefAlternatives BRACE_TABLE = [''title'']"
    "eventTypeAlternatives BRACE_TABLE = KNOWN_EVENT_TYPES"
    by (simp_all add: stringAlternatives_def numericAlternatives_def columnRefAlternatives_def
        eventTypeAlternatives_def c uniqueInOrder_def)
  have tn: "tableName BRACE_TABLE = ''{{STRING_COLS}}''" by (simp add: BRACE_TABLE_def)
  let ?r2 = "toLarkAlternatives [''title'']"
  let ?r3 = "toLarkAlternatives [''id'']"
  let ?r5 = "toLarkAlternatives KNOWN_EVENT_TYPES"
  let ?r6 = "toLarkAlternatives KNOWN_ACTION_VALUES"
  let ?a = "SEG0 @ ?r2 @ SEG1"
  let ?m = "''{{STRING_COLS}}''"
  have p2: "plainText ?r2" and p3: "plainText ?r3"
    by (simp_all add: plainText_def toLarkAlternatives_def)
  have p5: "plainText ?r5" by (rule toLarkAlternatives_plain [OF KNOWN_EVENT_TYPES_plain])
  have p6: "plainText ?r6" by (rule toLarkAlternatives_plain [OF KNOWN_ACTION_VALUES_plain])
  note nb = SEG0_no_brace SEG1_no_brace SEG2345_no_brace
  have na: "CHR ''{'' \<notin> set ?a" using p2 nb by (simp add: plainText_def)
  let ?rest1 = "SEG1 @ ''{{STRING_COLS}}'' @ SEG2 @ ''{{NUMERIC_COLS}}'' @ SEG3 @
     ''{{COLUMN_REF}}'' @ SEG4 @ ''{{EVENT_TYPES}}'' @ SEG5 @ ''{{ACTION_VALUES}}'' @ SEG6"
  have g1: "replaceFirst ''{{TABLE_NAME}}'' ''{{STRING_COLS}}'' GRAMMAR_TEMPLATE =
      SEG0 @ ''{{STRING_COLS}}'' @ ?rest1"
    using replaceFirst_at [OF noStart_head [OF SEG0_no_brace],
        of "''{TABLE_NAME}}''" "''{{STRING_COLS}}''" ?rest1]
    by (simp add: template_segments)
  have g2: "replaceFirst ''{{STRING_COLS}}'' ?r2 (SEG0 @ ''{{STRING_COLS}}'' @ ?rest1) =
      SEG0 @ ?r2 @ ?rest1"
    using replaceFirst_plain [of SEG0 ?r2 "''{STRING_COLS}}''" ?rest1] p2 nb
    by (simp add: plainText_def)
  have g3: "replaceFirst ''{{NUMERIC_COLS}}'' ?r3
      ((?a @ ?m @ SEG2) @ ''{{NUMERIC_COLS}}'' @ SEG3 @
         ''{{COLUMN_REF}}'' @ SEG4 @ ''{{EVENT_TYPES}}'' @ SEG5 @ ''{{ACTION_VALUES}}'' @ SEG6) =
      (?a @ ?m @ SEG2) @ ?r3 @ SEG3 @
         ''{{COLUMN_REF}}'' @ SEG4 @ ''{{EVENT_TYPES}}'' @ SEG5 @ ''{{ACTION_VALUES}}'' @ SEG6"
    using p3 nb by (intro replaceFirst_past [OF na]) (simp_all add: plainText_def)
  have nb4: "CHR ''{'' \<notin> set (SEG2 @ ?r3 @ SEG3)" using p3 nb by (simp add: plainText_def)
  have g4: "replaceFirst ''{{COLUMN_REF}}'' ?r2
      ((?a @ ?m @ SEG2 @ ?r3 @ SEG3) @ ''{{COLUMN_REF}}'' @ SEG4 @ ''{{EVENT_TYPES}}'' @ SEG5 @
         ''{{ACTION_VALUES}}'' @ SEG6) =
      (?a @ ?m @ SEG2 @ ?r3 @ SEG3) @ ?r2 @ SEG4 @ ''{{EVENT_TYPES}}'' @ SEG5 @
         ''{{ACTION_VALUES}}'' @ SEG6"
    using p2 by (intro replaceFirst_past [OF na _ nb4]) (simp_all add: plainText_def)
  have nb5: "CHR ''{'' \<notin> set (SEG2 @ ?r3 @ SEG3 @ ?r2 @ SEG4)"
    using p2 p3 nb by (simp add: plainText_def)
  have g5: "replaceFirst ''{{EVENT_TYPES}}'' ?r5
      ((?a @ ?m @ SEG2 @ ?r3 @ SEG3 @ ?r2 @ SEG4) @ ''{{EVENT_TYPES}}'' @ SEG5 @
         ''{{ACTION_VALUES}}'' @ SEG6) =
      (?a @ ?m @ SEG2 @ ?r3 @ SEG3 @ ?r2 @ SEG4) @ ?r5 @ SEG5 @ ''{{ACTION_VALUES}}'' @ SEG6"
    using p5 by (intro replaceFirst_past [OF na _ nb5]) (simp_all add: plainText_def)
  have nb6: "CHR ''{'' \<notin> set (SEG2 @ ?r3 @ SEG3 @ ?r2 @ SEG4 @ ?r5 @ SEG5)"
    using p2 p3 p5 nb by (simp add: plainText_def)
  have g6: "replaceFirst ''{{ACTION_VALUES}}'' ?r6
      ((?a @ ?m @ SEG2 @ ?r3 @ SEG3 @ ?r2 @ SEG4 @ ?r5 @ SEG5) @ ''{{ACTION_VALUES}}'' @ SEG6) =
      (?a @ ?m @ SEG2 @ ?r3 @ SEG3 @ ?r2 @ SEG4 @ ?r5 @ SEG5) @ ?r6 @ SEG6"
    using p6 by (intro replaceFirst_past [OF na _ nb6]) (simp_all add: plainText_def)
  show ?thesis
    unfolding buildGrammar_unfold alts tn g1 g2 using g3 g4 g5 g6 by simp
qed


text \<open>
  Claim C7. \<open>buildGrammar\<close> is to return a grammar with no placeholder token left, for
  every schema with a table name and a column. It does not: for the schema whose column
  \<open>type\<close> has the enum value \<open>$&\<close> the grammar holds the rule
  \<open>event_type: "{{EVENT_TYPES}}"\<close>, and for the schema whose table is named
  \<open>{{STRING_COLS}}\<close> it holds the rule \<open>string_col: {{STRING_COLS}}\<close>, an alternation
  with no literal at all.
\<close>

theorem placeholder_survives:
  "tableName DOLLAR_ENUM \<noteq> [] \<and> columns DOLLAR_ENUM \<noteq> [] \<and>
   ''{{EVENT_TYPES}}'' \<in> set TEMPLATE_PLACEHOLDERS \<and>
   occursIn ''{{EVENT_TYPES}}'' (buildGrammar DOLLAR_ENUM) \<and>
   occursIn (''event_type: '' @ dq @ ''{{EVENT_TYPES}}'' @ dq @ nl) (buildGrammar DOLLAR_ENUM) \<and>
   tableName BRACE_TABLE \<noteq> [] \<and> columns BRACE_TABLE \<noteq> [] \<and>
   ''{{STRING_COLS}}'' \<in> set TEMPLATE_PLACEHOLDERS \<and>
   occursIn ''{{STRING_COLS}}'' (buildGrammar BRACE_TABLE) \<and>
   occursIn (nl @ ''string_col: {{STRING_COLS}}'' @ nl) (buildGrammar BRACE_TABLE)"
proof -
  let ?r2 = "toLarkAlternatives [''title'']"
  let ?tail = "toLarkAlternatives [''id''] @ SEG3 @ toLarkAlternatives [''title''] @ SEG4 @
     toLarkAlternatives KNOWN_EVENT_TYPES @ SEG5 @ toLarkAlternatives KNOWN_ACTION_VALUES @ SEG6"
  have "buildGrammar BRACE_TABLE =
      (SEG0 @ ?r2 @ dq @ nl @ joinStrings nl (take 48 (drop 29 TEMPLATE_LINES))) @
      (nl @ ''string_col: {{STRING_COLS}}'' @ nl) @ (''numeric_col: '' @ ?tail)"
    unfolding brace_table_shape by (simp add: SEG1_def SEG2_def)
  then have b1: "occursIn (nl @ ''string_col: {{STRING_COLS}}'' @ nl) (buildGrammar BRACE_TABLE)"
    unfolding occursIn_iff by blast
  have "buildGrammar BRACE_TABLE =
      (SEG0 @ ?r2 @ SEG1) @ ''{{STRING_COLS}}'' @ (SEG2 @ ?tail)"
    unfolding brace_table_shape by simp
  then have b2: "occursIn ''{{STRING_COLS}}'' (buildGrammar BRACE_TABLE)"
    unfolding occursIn_iff by blast
  have b3: "tableName BRACE_TABLE \<noteq> [] \<and> columns BRACE_TABLE \<noteq> [] \<and>
      ''{{STRING_COLS}}'' \<in> set TEMPLATE_PLACEHOLDERS"
    by (simp add: BRACE_TABLE_def TEMPLATE_PLACEHOLDERS_def)
  from dollar_enum_placeholder b1 b2 b3 show ?thesis by blast
qed

section \<open>The language of the materialized grammar\<close>

text \<open>
  The rules of the template as sets of strings: a quoted literal is the set of that one
  string, juxtaposition is concatenation, \<open>|\<close> is union, \<open>?\<close> adds the empty string,
  \<open>( ... )*\<close> is any number of repetitions, and a regex terminal is the set of strings
  its pattern matches whole. The five injected rules have the alternatives that
  \<open>buildGrammar\<close> substitutes for the schema, and \<open>from_clause\<close> its table name.
\<close>

definition litL :: "string \<Rightarrow> string set" where
  "litL w = {w}"

definition seqL :: "string set \<Rightarrow> string set \<Rightarrow> string set" where
  "seqL A B = {a @ b | a b. a \<in> A \<and> b \<in> B}"

definition optL :: "string set \<Rightarrow> string set" where
  "optL A = insert [] A"

definition starL :: "string set \<Rightarrow> string set" where
  "starL A = {concat ws | ws. list_all (\<lambda>w. w \<in> A) ws}"

definition T_ALIAS :: "string set" where
  "T_ALIAS = {c # cs | c cs. isAliasStart c \<and> list_all isAliasChar cs \<and> length cs \<le> 29}"

definition T_STRING_VALUE :: "string set" where
  "T_STRING_VALUE = {w. 1 \<le> length w \<and> length w \<le> 100 \<and> list_all isStringValueChar w}"

definition T_DATE_LITERAL :: "string set" where
  "T_DATE_LITERAL =
     {y @ ''-'' @ m @ ''-'' @ d | y m d.
        length y = 4 \<and> length m = 2 \<and> length d = 2 \<and> list_all isDigit (y @ m @ d)}"

definition T_NUMBER :: "string set" where
  "T_NUMBER = {w. 1 \<le> length w \<and> length w \<le> 6 \<and> list_all isDigit w}"

definition G_string_col :: "TableSchema \<Rightarrow> string set" where
  "G_string_col schema = set (stringAlternatives schema)"

definition G_numeric_col :: "TableSchema \<Rightarrow> string set" where
  "G_numeric_col schema = set (numericAlternatives schema)"

definition G_column_ref :: "TableSchema \<Rightarrow> string set" where
  "G_column_ref schema = set (columnRefAlternatives schema)"

definition G_event_type :: "TableSchema \<Rightarrow> string set" where
  "G_event_type schema = set (eventTypeAlternatives schema)"

definition G_action_value :: "string set" where
  "G_action_value = set KNOWN_ACTION_VALUES"

definition G_agg_func :: "string set" where
  "G_agg_func = {''count'', ''sum'', ''avg'', ''min'', ''max'', ''uniq'', ''uniqExact''}"

definition G_agg_expr :: "TableSchema \<Rightarrow> string set" where
  "G_agg_expr schema =
     seqL G_agg_func (seqL (litL ''('') (seqL (optL (G_column_ref schema)) (litL '')'')))"

definition G_date_trunc_expr :: "string set" where
  "G_date_trunc_expr =
     {''toStartOfHour(created_at)'', ''toStartOfDay(created_at)'', ''toStartOfWeek(created_at)'',
      ''toStartOfMonth(created_at)'', ''toDate(created_at)''}"

definition G_select_item :: "TableSchema \<Rightarrow> string set" where
  "G_select_item schema =
     seqL (G_agg_expr schema) (seqL (litL '' AS '') T_ALIAS) \<union>
     seqL G_date_trunc_expr (seqL (litL '' AS '') T_ALIAS) \<union>
     G_column_ref schema"

definition G_select_list :: "TableSchema \<Rightarrow> string set" where
  "G_select_list schema =
     seqL (G_select_item schema) (starL (seqL (litL '', '') (G_select_item schema)))"

definition G_select_clause :: "TableSchema \<Rightarrow> string set" where
  "G_select_clause schema = seqL (litL ''SELECT '') (G_select_list schema)"

definition G_from_clause :: "TableSchema \<Rightarrow> string set" where
  "G_from_clause schema = litL ('' FROM '' @ tableName schema)"

definition G_compare_op :: "string set" where
  "G_compare_op = {''!='', ''>='', ''<='', ''='', ''>'', ''<''}"

definition G_time_unit :: "string set" where
  "G_time_unit = {''HOUR'', ''DAY'', ''WEEK'', ''MONTH''}"

definition G_event_type_list :: "TableSchema \<Rightarrow> string set" where
  "G_event_type_list schema =
     seqL (litL sq) (seqL (G_event_type schema) (seqL (litL sq)
       (starL (seqL (litL ('', '' @ sq)) (seqL (G_event_type schema) (litL sq))))))"

definition G_string_list :: "string set" where
  "G_string_list =
     seqL (litL sq) (seqL T_STRING_VALUE (seqL (litL sq)
       (starL (seqL (litL ('', '' @ sq)) (seqL T_STRING_VALUE (litL sq))))))"

definition G_string_condition :: "TableSchema \<Rightarrow> string set" where
  "G_string_condition schema =
     seqL (G_string_col schema) (seqL (litL ('' = '' @ sq)) (seqL T_STRING_VALUE (litL sq))) \<union>
     seqL (G_string_col schema)
       (seqL (litL ('' LIKE '' @ sq @ ''%'')) (seqL T_STRING_VALUE (litL (''%'' @ sq)))) \<union>
     seqL (G_string_col schema) (seqL (litL '' IN ('') (seqL G_string_list (litL '')'')))"

definition G_numeric_condition :: "TableSchema \<Rightarrow> string set" where
  "G_numeric_condition schema =
     seqL (G_numeric_col schema)
       (seqL (litL '' '') (seqL G_compare_op (seqL (litL '' '') T_NUMBER)))"

definition G_datetime_condition :: "string set" where
  "G_datetime_condition =
     seqL (litL ''created_at >= now() - INTERVAL '') (seqL T_NUMBER (seqL (litL '' '') G_time_unit)) \<union>
     seqL (litL (''created_at BETWEEN '' @ sq))
       (seqL T_DATE_LITERAL (seqL (litL (sq @ '' AND '' @ sq)) (seqL T_DATE_LITERAL (litL sq))))"

definition G_enum_condition :: "TableSchema \<Rightarrow> string set" where
  "G_enum_condition schema =
     seqL (litL (''type = '' @ sq)) (seqL (G_event_type schema) (litL sq)) \<union>
     seqL (litL ''type IN ('') (seqL (G_event_type_list schema) (litL '')'')) \<union>
     seqL (litL (''action = '' @ sq)) (seqL G_action_value (litL sq))"

definition G_condition :: "TableSchema \<Rightarrow> string set" where
  "G_condition schema =
     G_string_condition schema \<union> G_numeric_condition schema \<union> G_datetime_condition \<union>
     G_enum_condition schema"

definition G_where_clause :: "TableSchema \<Rightarrow> string set" where
  "G_where_clause schema =
     seqL (litL '' WHERE '')
       (seqL (G_condition schema) (starL (seqL (litL '' AND '') (G_condition schema))))"

definition G_group_item :: "TableSchema \<Rightarrow> string set" where
  "G_group_item schema = G_column_ref schema \<union> G_date_trunc_expr"

definition G_group_list :: "TableSchema \<Rightarrow> string set" where
  "G_group_list schema =
     seqL (G_group_item schema) (starL (seqL (litL '', '') (G_group_item schema)))"

definition G_group_clause :: "TableSchema \<Rightarrow> string set" where
  "G_group_clause schema = seqL (litL '' GROUP BY '') (G_group_list schema)"

definition G_having_clause :: "TableSchema \<Rightarrow> string set" where
  "G_having_clause schema =
     seqL (litL '' HAVING '')
       (seqL (G_agg_expr schema)
          (seqL (litL '' '') (seqL G_compare_op (seqL (litL '' '') T_NUMBER))))"

definition G_order_dir :: "string set" where
  "G_order_dir = {'' ASC'', '' DESC''}"

definition G_order_expr :: "TableSchema \<Rightarrow> string set" where
  "G_order_expr schema = G_column_ref schema \<union> T_ALIAS \<union> G_agg_expr schema"

definition G_order_item :: "TableSchema \<Rightarrow> string set" where
  "G_order_item schema = seqL (G_order_expr schema) (optL G_order_dir)"

definition G_order_list :: "TableSchema \<Rightarrow> string set" where
  "G_order_list schema =
     seqL (G_order_item schema) (starL (seqL (litL '', '') (G_order_item schema)))"

definition G_order_clause :: "TableSchema \<Rightarrow> string set" where
  "G_order_clause schema = seqL (litL '' ORDER BY '') (G_order_list schema)"

definition G_limit_clause :: "string set" where
  "G_limit_clause = seqL (litL '' LIMIT '') T_NUMBER"

definition G_start :: "TableSchema \<Rightarrow> string set" where
  "G_start schema =
     seqL (G_select_clause schema)
       (seqL (G_from_clause schema)
          (seqL (optL (G_where_clause schema))
             (seqL (optL (G_group_clause schema))
                (seqL (optL (G_having_clause schema))
                   (seqL (optL (G_order_clause schema)) (optL G_limit_clause))))))"

lemma seqL_I: "a \<in> A \<Longrightarrow> b \<in> B \<Longrightarrow> a @ b \<in> seqL A B"
  unfolding seqL_def by blast

lemma seqL_E: "w \<in> seqL A B \<Longrightarrow> (\<And>a b. w = a @ b \<Longrightarrow> a \<in> A \<Longrightarrow> b \<in> B \<Longrightarrow> P) \<Longrightarrow> P"
  unfolding seqL_def by blast

lemma starL_Nil: "[] \<in> starL A"
proof -
  have "[] = concat [] \<and> list_all (\<lambda>w. w \<in> A) []" by simp
  then show ?thesis unfolding starL_def by blast
qed

lemma optL_Nil: "[] \<in> optL A"
  by (simp add: optL_def)

lemma static_column_ref:
  "columnRefAlternatives STATIC_SCHEMA =
     [''actor_login'', ''repo_name'', ''action'', ''title'', ''body'', ''ref'', ''id'', ''number'',
      ''is_private'', ''created_at'', ''type'']"
  by (simp add: columnRefAlternatives_def classifyColumns_def STATIC_SCHEMA_def classifyColumn_def
      classifyByType_def isDateTimeType_def isStringType_def isNumericType_def uniqueInOrder_def
      KNOWN_EVENT_TYPES_def Let_def)

lemma derivable_idx: "''SELECT id FROM github_events ORDER BY idx'' \<in> G_start STATIC_SCHEMA"
proof -
  have id: "''id'' \<in> G_column_ref STATIC_SCHEMA"
    by (simp add: G_column_ref_def static_column_ref)
  then have "''id'' \<in> G_select_item STATIC_SCHEMA" by (simp add: G_select_item_def)
  from seqL_I [OF this starL_Nil] have "''id'' \<in> G_select_list STATIC_SCHEMA"
    by (simp add: G_select_list_def)
  then have sel: "''SELECT '' @ ''id'' \<in> G_select_clause STATIC_SCHEMA"
    unfolding G_select_clause_def by (intro seqL_I) (simp_all add: litL_def)
  have frm: "'' FROM github_events'' \<in> G_from_clause STATIC_SCHEMA"
    by (simp add: G_from_clause_def litL_def STATIC_SCHEMA_def)
  have "''idx'' \<in> T_ALIAS"
    by (simp add: T_ALIAS_def isAliasStart_def isAliasChar_def)
  then have "''idx'' \<in> G_order_expr STATIC_SCHEMA" by (simp add: G_order_expr_def)
  from seqL_I [OF this optL_Nil] have "''idx'' \<in> G_order_item STATIC_SCHEMA"
    by (simp add: G_order_item_def)
  from seqL_I [OF this starL_Nil] have "''idx'' \<in> G_order_list STATIC_SCHEMA"
    by (simp add: G_order_list_def)
  then have "'' ORDER BY '' @ ''idx'' \<in> G_order_clause STATIC_SCHEMA"
    unfolding G_order_clause_def by (intro seqL_I) (simp_all add: litL_def)
  then have ord: "'' ORDER BY '' @ ''idx'' \<in> optL (G_order_clause STATIC_SCHEMA)"
    by (simp add: optL_def)
  have "(''SELECT '' @ ''id'') @ '' FROM github_events'' @ [] @ [] @ [] @ ('' ORDER BY '' @ ''idx'') @ []
      \<in> G_start STATIC_SCHEMA"
    unfolding G_start_def
    by (intro seqL_I sel frm ord optL_Nil)
  then show ?thesis by simp
qed


text \<open>A string that is not empty and does not end in a space.\<close>

definition endsInWord :: "string \<Rightarrow> bool" where
  "endsInWord w = (w \<noteq> [] \<and> last w \<noteq> CHR '' '')"

lemma endsInWord_append: "endsInWord b \<Longrightarrow> endsInWord (a @ b)"
  by (simp add: endsInWord_def)

lemma alias_endsInWord: "w \<in> T_ALIAS \<Longrightarrow> endsInWord w"
proof -
  assume "w \<in> T_ALIAS"
  then obtain c cs where w: "w = c # cs" and c: "isAliasStart c" and cs: "list_all isAliasChar cs"
    unfolding T_ALIAS_def by blast
  from c have c': "c \<noteq> CHR '' ''" by (auto simp: isAliasStart_def)
  show ?thesis
  proof (cases "cs = []")
    case True
    with w c' show ?thesis by (simp add: endsInWord_def)
  next
    case False
    then have "last cs \<in> set cs" by simp
    with cs have "isAliasChar (last cs)" by (simp add: list_all_iff)
    then have "last cs \<noteq> CHR '' ''" by (auto simp: isAliasChar_def)
    with w False show ?thesis by (simp add: endsInWord_def)
  qed
qed

lemma column_ref_endsInWord: "w \<in> G_column_ref STATIC_SCHEMA \<Longrightarrow> endsInWord w"
  by (auto simp: G_column_ref_def static_column_ref endsInWord_def)

lemma as_alias_endsInWord:
  assumes "w \<in> seqL A (seqL (litL '' AS '') T_ALIAS)"
  shows "endsInWord w"
proof -
  from assms obtain a x al where w: "w = a @ x @ al" and al: "al \<in> T_ALIAS"
    by (auto elim!: seqL_E)
  from alias_endsInWord [OF al] have "endsInWord (a @ x @ al)"
    by (intro endsInWord_append)
  with w show ?thesis by simp
qed

lemma select_item_endsInWord:
  assumes "w \<in> G_select_item STATIC_SCHEMA"
  shows "endsInWord w"
  using assms as_alias_endsInWord column_ref_endsInWord
  unfolding G_select_item_def by blast

lemma after_comma_endsInWord:
  assumes "x \<in> seqL (litL '', '') (G_select_item STATIC_SCHEMA)"
  shows "endsInWord x"
proof -
  from assms obtain a b where x: "x = a @ b" and b: "b \<in> G_select_item STATIC_SCHEMA"
    by (auto elim!: seqL_E)
  from select_item_endsInWord [OF b] x show ?thesis by (simp add: endsInWord_append)
qed

lemma concat_endsInWord:
  "endsInWord w0 \<Longrightarrow> list_all endsInWord ws \<Longrightarrow> endsInWord (w0 @ concat ws)"
proof (induction ws arbitrary: w0)
  case Nil
  then show ?case by simp
next
  case (Cons w ws)
  from Cons.prems have "endsInWord (w0 @ w)" by (simp add: endsInWord_append)
  from Cons.IH [OF this] Cons.prems show ?case by simp
qed

lemma select_list_endsInWord:
  assumes "w \<in> G_select_list STATIC_SCHEMA"
  shows "endsInWord w"
proof -
  from assms obtain w0 r where w: "w = w0 @ r" and w0: "w0 \<in> G_select_item STATIC_SCHEMA"
    and r: "r \<in> starL (seqL (litL '', '') (G_select_item STATIC_SCHEMA))"
    unfolding G_select_list_def by (auto elim: seqL_E)
  from r obtain ws where ws: "r = concat ws"
    and all: "list_all (\<lambda>x. x \<in> seqL (litL '', '') (G_select_item STATIC_SCHEMA)) ws"
    unfolding starL_def by blast
  from all after_comma_endsInWord have "list_all endsInWord ws" by (simp add: list_all_iff)
  from concat_endsInWord [OF select_item_endsInWord [OF w0] this] w ws show ?thesis by simp
qed

lemma not_derivable_dangling_comma:
  "''SELECT id,  FROM github_events'' \<notin> G_start STATIC_SCHEMA"
proof
  assume "''SELECT id,  FROM github_events'' \<in> G_start STATIC_SCHEMA"
  then obtain a b where ab: "''SELECT id,  FROM github_events'' = a @ b"
    and a: "a \<in> G_select_clause STATIC_SCHEMA"
    and b: "b \<in> seqL (G_from_clause STATIC_SCHEMA)
          (seqL (optL (G_where_clause STATIC_SCHEMA))
             (seqL (optL (G_group_clause STATIC_SCHEMA))
                (seqL (optL (G_having_clause STATIC_SCHEMA))
                   (seqL (optL (G_order_clause STATIC_SCHEMA)) (optL G_limit_clause)))))"
    unfolding G_start_def by (auto elim: seqL_E)
  from a obtain sl where sl: "a = ''SELECT '' @ sl" and sl_in: "sl \<in> G_select_list STATIC_SCHEMA"
    unfolding G_select_clause_def by (auto elim!: seqL_E simp: litL_def)
  from b obtain t where t: "b = '' FROM github_events'' @ t"
    by (auto elim!: seqL_E simp: G_from_clause_def litL_def STATIC_SCHEMA_def)
  from ab sl t have e: "sl @ '' FROM github_events'' @ t = ''id,  FROM github_events''"
    by simp
  from select_list_endsInWord [OF sl_in] have w: "sl \<noteq> []" "last sl \<noteq> CHR '' ''"
    by (simp_all add: endsInWord_def)
  have "length (sl @ '' FROM github_events'' @ t) = length ''id,  FROM github_events''"
    using e by (rule arg_cong)
  then have "length sl + 19 + length t = 23" by simp
  then have "length sl \<le> 4" by arith
  then consider "length sl = 0" | "length sl = 1" | "length sl = 2" | "length sl = 3"
    | "length sl = 4" by arith
  then show False
  proof cases
    case 1
    with w show False by simp
  next
    case 2
    with e show False by (auto simp: append_eq_conv_conj)
  next
    case 3
    with e show False by (auto simp: append_eq_conv_conj)
  next
    case 4
    with e show False by (auto simp: append_eq_conv_conj)
  next
    case 5
    with e have "sl = ''id, ''" by (auto simp: append_eq_conv_conj)
    with w show False by simp
  qed
qed


lemma rejected_idx: "\<not> isValidGrammarSQL ''SELECT id FROM github_events ORDER BY idx''"
  by code_simp

lemma accepted_dangling_comma: "isValidGrammarSQL ''SELECT id,  FROM github_events''"
  by code_simp

text \<open>
  Claim C2. The verifier and the grammar materialized for the default schema do not
  define the same language, in either direction. \<open>SELECT id FROM github_events ORDER BY
  idx\<close> is derivable (\<open>idx\<close> is an \<open>ALIAS\<close>), and the verifier rejects it:
  \<open>parseOrderItem\<close> commits to the column \<open>id\<close> and leaves \<open>x\<close> unconsumed.
  \<open>SELECT id,  FROM github_events\<close> is accepted by the verifier, whose loop swallows the
  dangling comma, and is not derivable: a \<open>select_list\<close> never ends in a space.
\<close>

theorem verifier_differs_from_grammar:
  "''SELECT id FROM github_events ORDER BY idx'' \<in> G_start STATIC_SCHEMA \<and>
   \<not> isValidGrammarSQL ''SELECT id FROM github_events ORDER BY idx'' \<and>
   isValidGrammarSQL ''SELECT id,  FROM github_events'' \<and>
   ''SELECT id,  FROM github_events'' \<notin> G_start STATIC_SCHEMA"
  using derivable_idx rejected_idx accepted_dangling_comma not_derivable_dangling_comma
  by blast

end
